theory Spec2Isabelle
  imports Main
begin

section \<open>Go strings, as byte sequences\<close>

text \<open>
  A Go string is a sequence of bytes, here a \<^typ>\<open>string\<close> (a list of 8-bit characters).
  The functions of package \<open>strings\<close> that structsync calls are written out on bytes.
\<close>

definition HasPrefix :: "string \<Rightarrow> string \<Rightarrow> bool" where
  "HasPrefix s p = (take (length p) s = p)"

definition TrimPrefix :: "string \<Rightarrow> string \<Rightarrow> string" where
  "TrimPrefix s p = (if HasPrefix s p then drop (length p) s else s)"

text \<open>\<open>strings.Index\<close>: the position of the first occurrence, \<open>None\<close> for Go's \<open>-1\<close>.\<close>

fun Index :: "string \<Rightarrow> string \<Rightarrow> nat option" where
  "Index [] sub = (if sub = [] then Some 0 else None)"
| "Index (c # s) sub =
     (if HasPrefix (c # s) sub then Some 0 else map_option Suc (Index s sub))"

definition Contains :: "string \<Rightarrow> string \<Rightarrow> bool" where
  "Contains s sub = (Index s sub \<noteq> None)"

text \<open>\<open>strings.TrimLeft\<close>, \<open>TrimRight\<close> and \<open>Trim\<close>, for a cutset of one ASCII character.\<close>

definition TrimLeft :: "string \<Rightarrow> char \<Rightarrow> string" where
  "TrimLeft s c = dropWhile (\<lambda>x. x = c) s"

definition TrimRight :: "string \<Rightarrow> char \<Rightarrow> string" where
  "TrimRight s c = rev (dropWhile (\<lambda>x. x = c) (rev s))"

definition Trim :: "string \<Rightarrow> char \<Rightarrow> string" where
  "Trim s c = TrimRight (TrimLeft s c) c"

text \<open>
  \<open>strings.TrimSpace\<close> removes the leading and the trailing runes for which
  \<open>unicode.IsSpace\<close> holds. \<open>spaceRunes\<close> lists their UTF-8 encodings: the six ASCII
  spaces, U+0085, U+00A0, U+1680, U+2000 to U+200A, U+2028, U+2029, U+202F, U+205F and
  U+3000. A byte that starts no such encoding ends the trimming, as a rune that is not
  a space (or an invalid byte, decoded to U+FFFD) does.
\<close>

definition spaceRunes :: "string list" where
  "spaceRunes =
    [[CHR 0x09], [CHR 0x0A], [CHR 0x0B], [CHR 0x0C], [CHR 0x0D], [CHR 0x20],
     [CHR 0xC2, CHR 0x85], [CHR 0xC2, CHR 0xA0], [CHR 0xE1, CHR 0x9A, CHR 0x80],
     [CHR 0xE2, CHR 0x80, CHR 0x80], [CHR 0xE2, CHR 0x80, CHR 0x81],
     [CHR 0xE2, CHR 0x80, CHR 0x82], [CHR 0xE2, CHR 0x80, CHR 0x83],
     [CHR 0xE2, CHR 0x80, CHR 0x84], [CHR 0xE2, CHR 0x80, CHR 0x85],
     [CHR 0xE2, CHR 0x80, CHR 0x86], [CHR 0xE2, CHR 0x80, CHR 0x87],
     [CHR 0xE2, CHR 0x80, CHR 0x88], [CHR 0xE2, CHR 0x80, CHR 0x89],
     [CHR 0xE2, CHR 0x80, CHR 0x8A], [CHR 0xE2, CHR 0x80, CHR 0xA8],
     [CHR 0xE2, CHR 0x80, CHR 0xA9], [CHR 0xE2, CHR 0x80, CHR 0xAF],
     [CHR 0xE2, CHR 0x81, CHR 0x9F], [CHR 0xE3, CHR 0x80, CHR 0x80]]"

text \<open>The width in bytes of the first of the runes \<open>ps\<close> that \<open>s\<close> starts with, 0 if none.\<close>

fun runeWidth :: "string list \<Rightarrow> string \<Rightarrow> nat" where
  "runeWidth [] s = 0"
| "runeWidth (p # ps) s = (if p \<noteq> [] \<and> HasPrefix s p then length p else runeWidth ps s)"

function stripRunes :: "string list \<Rightarrow> string \<Rightarrow> string" where
  "stripRunes ps s =
     (if runeWidth ps s = 0 then s else stripRunes ps (drop (runeWidth ps s) s))"
  by pat_completeness auto
termination
proof (relation "measure (\<lambda>(ps, s). length s)")
  show "wf (measure (\<lambda>(ps, s). length s))" by simp
next
  fix ps :: "string list" and s :: string
  assume nz: "runeWidth ps s \<noteq> 0"
  have "runeWidth ps s \<le> length s"
  proof (induction ps)
    case Nil
    show ?case by simp
  next
    case (Cons p ps)
    have "HasPrefix s p \<Longrightarrow> length p \<le> length s"
      unfolding HasPrefix_def by (metis length_take min.cobounded1)
    with Cons show ?case by simp
  qed
  with nz show "((ps, drop (runeWidth ps s) s), (ps, s)) \<in> measure (\<lambda>(ps, s). length s)"
    by simp
qed

declare stripRunes.simps [simp del]

definition TrimSpace :: "string \<Rightarrow> string" where
  "TrimSpace s = rev (stripRunes (map rev spaceRunes) (rev (stripRunes spaceRunes s)))"

section \<open>The decorated syntax tree (package dst)\<close>

text \<open>
  The nodes of \<open>github.com/dave/dst\<close> that structsync reads and builds. \<open>dst.Expr\<close> is an
  interface: \<open>NilExpr\<close> is its nil value, and \<open>OtherExpr goType src\<close> stands for a node of
  any kind the type switches of structsync do not name (function, channel, generic
  instantiation, parenthesised types and so on), with the name \<open>goType\<close> that Go's
  \<open>%T\<close> prints for it. The length of an \<open>ArrayType\<close> is \<open>NilExpr\<close> for a slice. A field
  carries its names, type, tag literal and the \<open>Before\<close> and \<open>Start\<close> decorations.
\<close>

datatype SpaceType = SpaceNone | NewLine | EmptyLine

datatype dst_Expr =
    NilExpr
  | Ident string
  | StarExpr dst_Expr
  | SelectorExpr dst_Expr string
  | ArrayType dst_Expr dst_Expr
  | MapType dst_Expr dst_Expr
  | InterfaceType "dst_Field list"
  | StructType "dst_Field list"
  | OtherExpr string string
and dst_Field =
    DstField (Names: "string list") (FieldType: dst_Expr) (FieldTag: "string option")
      (Decs_Before: SpaceType) (Decs_Start: "string list")

section \<open>parser.go\<close>

text \<open>
  \<open>ParsedField\<close> without its back pointer \<open>Node\<close>, which nothing reads. \<open>ParsedStruct\<close>
  with the name and the fields.
\<close>

record ParsedField =
  Name :: string
  Type :: string
  TypeExpr :: dst_Expr
  Tags :: string
  Comments :: "string list"
  IsEmbedded :: bool

record ParsedStruct =
  Name :: string
  Fields :: "ParsedField list"

fun exprToString :: "dst_Expr \<Rightarrow> string" where
  "exprToString (Ident name) = name"
| "exprToString (StarExpr x) = ''*'' @ exprToString x"
| "exprToString (SelectorExpr x sel) = exprToString x @ ''.'' @ sel"
| "exprToString (ArrayType len elt) =
     (if len = NilExpr then ''[]'' @ exprToString elt else ''[...]'' @ exprToString elt)"
| "exprToString (MapType k v) = ''map['' @ exprToString k @ '']'' @ exprToString v"
| "exprToString (InterfaceType ms) = ''interface{}''"
| "exprToString (StructType fs) = ''struct{}''"
| "exprToString NilExpr = ''<nil>''"
| "exprToString (OtherExpr goType src) = goType"

definition extractField :: "dst_Field \<Rightarrow> ParsedField list" where
  "extractField field =
    (let tagValue = (case FieldTag field of None \<Rightarrow> '''' | Some v \<Rightarrow> v);
         comments = Decs_Start field;
         typeStr = exprToString (FieldType field)
     in if Names field = []
        then [\<lparr>ParsedField.Name = typeStr, Type = typeStr, TypeExpr = FieldType field,
               Tags = tagValue, Comments = comments, IsEmbedded = True\<rparr>]
        else map (\<lambda>name. \<lparr>ParsedField.Name = name, Type = typeStr,
                            TypeExpr = FieldType field, Tags = tagValue,
                            Comments = comments, IsEmbedded = False\<rparr>) (Names field))"

text \<open>
  The field loop of \<open>ExtractStruct\<close>, on the field list of the struct type that carries
  the name.
\<close>

definition ExtractStruct :: "string \<Rightarrow> dst_Field list \<Rightarrow> ParsedStruct" where
  "ExtractStruct name fieldList =
     \<lparr>ParsedStruct.Name = name, Fields = concat (map extractField fieldList)\<rparr>"

section \<open>merge.go: cloning type expressions\<close>

fun cloneExpr :: "dst_Expr \<Rightarrow> dst_Expr" where
  "cloneExpr NilExpr = NilExpr"
| "cloneExpr (Ident name) = Ident name"
| "cloneExpr (StarExpr x) = StarExpr (cloneExpr x)"
| "cloneExpr (SelectorExpr x sel) = SelectorExpr (cloneExpr x) sel"
| "cloneExpr (ArrayType len elt) = ArrayType len (cloneExpr elt)"
| "cloneExpr (MapType k v) = MapType (cloneExpr k) (cloneExpr v)"
| "cloneExpr (InterfaceType ms) = InterfaceType []"
| "cloneExpr (StructType fs) = StructType []"
| "cloneExpr (OtherExpr goType src) = OtherExpr goType src"

text \<open>
  \<open>cloneExpr\<close> makes a new node for every kind it names, but it hands back, without a
  copy, the length of an array and every node of a kind it does not name. \<open>keepsNode e\<close>
  says that the clone of \<open>e\<close> holds such a node of \<open>e\<close> itself.
\<close>

fun keepsNode :: "dst_Expr \<Rightarrow> bool" where
  "keepsNode NilExpr = False"
| "keepsNode (Ident name) = False"
| "keepsNode (StarExpr x) = keepsNode x"
| "keepsNode (SelectorExpr x sel) = keepsNode x"
| "keepsNode (ArrayType len elt) = (len \<noteq> NilExpr \<or> keepsNode elt)"
| "keepsNode (MapType k v) = (keepsNode k \<or> keepsNode v)"
| "keepsNode (InterfaceType ms) = False"
| "keepsNode (StructType fs) = False"
| "keepsNode (OtherExpr goType src) = True"

record MergeOptions =
  MarkDeprecated :: bool
  DeprecationMessage :: string
  PruneDeprecated :: bool
  RemoveTags :: "string list"

section \<open>The struct tag library (package structtag)\<close>

text \<open>
  \<open>github.com/fatih/structtag\<close> is not part of the repository: what structsync calls of
  it is a parameter of the model. \<open>Parse\<close> gives the tags in their order, or \<open>None\<close>
  when it returns an error; \<open>Tags_Get\<close> looks a key up (\<open>None\<close> for its error);
  \<open>Tags_Set\<close> is \<open>Set\<close> on a tag collection and \<open>Tags_String\<close> prints one.
\<close>

record structtag_Tag =
  Key :: string
  Name :: string
  Options :: "string list"

record structtag =
  Parse :: "string \<Rightarrow> structtag_Tag list option"
  Tags_Get :: "structtag_Tag list \<Rightarrow> string \<Rightarrow> structtag_Tag option"
  Tags_Set :: "structtag_Tag list \<Rightarrow> structtag_Tag \<Rightarrow> structtag_Tag list"
  Tags_String :: "structtag_Tag list \<Rightarrow> string"

section \<open>config.go and transform.go\<close>

record TransformOpts =
  RemoveTags :: "string list"
  ExcludeEmbedded :: "string list"
  TypeMappings :: "string \<rightharpoonup> string"

record TransformedField = ParsedField +
  NewTags :: string
  NewType :: string
  ShouldExclude :: bool

record TransformResult =
  Fields :: "TransformedField list"
  ExcludedFields :: "string list"
  ModifiedTags :: int

definition shouldExcludeField :: "structtag \<Rightarrow> string \<Rightarrow> bool" where
  "shouldExcludeField lib tagStr =
    (if tagStr = '''' then False
     else let tagStr = Trim tagStr (CHR 0x60) in
       if tagStr = '''' then False
       else case Parse lib tagStr of
           None \<Rightarrow> False
         | Some tags \<Rightarrow>
             (let xormDash = (case Tags_Get lib tags ''xorm'' of
                                None \<Rightarrow> False
                              | Some tag \<Rightarrow> structtag_Tag.Name tag = ''-'');
                  jsonDash = (case Tags_Get lib tags ''json'' of
                                None \<Rightarrow> False
                              | Some tag \<Rightarrow> structtag_Tag.Name tag = ''-'')
              in xormDash \<and> jsonDash))"

text \<open>
  The loop of \<open>transformTags\<close> over the parsed tags: the flag \<open>modified\<close> and the slice
  \<open>remaining\<close>. \<open>removeSet\<close> is a Go map to bool that is only read by key: a set.
\<close>

fun removeLoop ::
  "string set \<Rightarrow> structtag_Tag list \<Rightarrow> bool \<times> structtag_Tag list \<Rightarrow> bool \<times> structtag_Tag list"
where
  "removeLoop removeSet [] acc = acc"
| "removeLoop removeSet (tag # tags) (modified, remaining) =
     (if Key tag \<in> removeSet then removeLoop removeSet tags (True, remaining)
      else removeLoop removeSet tags (modified, remaining @ [tag]))"

definition transformTags :: "structtag \<Rightarrow> string \<Rightarrow> string set \<Rightarrow> string \<times> bool" where
  "transformTags lib tagStr removeSet =
    (if tagStr = '''' then ('''', False)
     else let tagStr = Trim tagStr (CHR 0x60) in
       if tagStr = '''' then ('''', False)
       else case Parse lib tagStr of
           None \<Rightarrow> ([CHR 0x60] @ tagStr @ [CHR 0x60], False)
         | Some tags \<Rightarrow>
             (case removeLoop removeSet tags (False, []) of
                (modified, remaining) \<Rightarrow>
                  if \<not> modified then ([CHR 0x60] @ tagStr @ [CHR 0x60], False)
                  else if remaining = [] then ('''', True)
                  else ([CHR 0x60] @ Tags_String lib (foldl (Tags_Set lib) [] remaining)
                          @ [CHR 0x60], True)))"

text \<open>One iteration of the field loop of \<open>TransformStruct\<close>, on the result so far.\<close>

definition transformField ::
  "structtag \<Rightarrow> TransformOpts \<Rightarrow> TransformResult \<Rightarrow> ParsedField \<Rightarrow> TransformResult"
where
  "transformField lib opts result field =
    (if IsEmbedded field \<and> ParsedField.Type field \<in> set (ExcludeEmbedded opts)
     then result\<lparr>ExcludedFields := ExcludedFields result @ [ParsedField.Type field]\<rparr>
     else if shouldExcludeField lib (Tags field)
     then result\<lparr>ExcludedFields := ExcludedFields result @ [ParsedField.Name field]\<rparr>
     else
       let tf = \<lparr>ParsedField.Name = ParsedField.Name field,
                 Type = ParsedField.Type field, TypeExpr = TypeExpr field,
                 Tags = Tags field, Comments = Comments field,
                 IsEmbedded = IsEmbedded field,
                 NewTags = Tags field, NewType = ParsedField.Type field,
                 ShouldExclude = False\<rparr>;
           tf = (case TypeMappings opts (ParsedField.Type field) of
                   Some mappedType \<Rightarrow> tf\<lparr>NewType := mappedType\<rparr>
                 | None \<Rightarrow> tf)
       in case transformTags lib (Tags field) (set (TransformOpts.RemoveTags opts)) of
            (newTags, modified) \<Rightarrow>
              if modified
              then result\<lparr>Fields := Fields result @ [tf\<lparr>NewTags := newTags\<rparr>],
                          ModifiedTags := ModifiedTags result + 1\<rparr>
              else result\<lparr>Fields := Fields result @ [tf]\<rparr>)"

definition TransformStruct :: "structtag \<Rightarrow> ParsedStruct \<Rightarrow> TransformOpts \<Rightarrow> TransformResult" where
  "TransformStruct lib ps opts =
     foldl (transformField lib opts)
       \<lparr>Fields = [], ExcludedFields = [], ModifiedTags = 0\<rparr> (ParsedStruct.Fields ps)"

section \<open>diff.go\<close>

datatype DiffType = DiffUnchanged | DiffAdded | DiffRemoved | DiffModified

record DiffLine =
  Type :: DiffType
  Content :: string

record DiffResult =
  StructName :: string
  HasChanges :: bool
  Lines :: "DiffLine list"

definition fieldKey :: "ParsedField \<Rightarrow> string" where
  "fieldKey f =
     (if IsEmbedded f then ''embedded:'' @ ParsedField.Type f
      else ''field:'' @ ParsedField.Name f)"

definition tfieldKey :: "TransformedField \<Rightarrow> string" where
  "tfieldKey f =
     (if IsEmbedded f then ''embedded:'' @ ParsedField.Type f
      else ''field:'' @ ParsedField.Name f)"

definition formatField :: "ParsedField \<Rightarrow> string" where
  "formatField f =
     [CHR 0x09]
     @ (if IsEmbedded f then ParsedField.Type f
        else ParsedField.Name f @ '' '' @ ParsedField.Type f)
     @ (if Tags f \<noteq> '''' then '' '' @ Tags f else '''')"

definition formatTransformedField :: "TransformedField \<Rightarrow> string" where
  "formatTransformedField f =
     (let fieldType = (if NewType f \<noteq> '''' then NewType f else ParsedField.Type f)
      in [CHR 0x09]
         @ (if IsEmbedded f then fieldType else ParsedField.Name f @ '' '' @ fieldType)
         @ (if NewTags f \<noteq> '''' then '' '' @ NewTags f else ''''))"

fun commentedLoop :: "string list \<Rightarrow> bool" where
  "commentedLoop [] = False"
| "commentedLoop (c # cs) =
     (let c = TrimSpace c in
      if HasPrefix c ''//''
      then (let content = TrimSpace (TrimPrefix c ''//'') in
            if HasPrefix content ''*'' \<or> Contains content ''.'' then True
            else commentedLoop cs)
      else commentedLoop cs)"

definition isFieldCommented :: "ParsedField \<Rightarrow> bool" where
  "isFieldCommented f = commentedLoop (Comments f)"

text \<open>The loop of \<open>ComputeDiff\<close> over the transformed source fields.\<close>

fun diffSourceLoop ::
  "(string \<rightharpoonup> ParsedField) \<Rightarrow> TransformedField list \<Rightarrow> DiffResult \<Rightarrow> DiffResult"
where
  "diffSourceLoop targetFields [] result = result"
| "diffSourceLoop targetFields (sf # rest) result =
     (if ShouldExclude sf then diffSourceLoop targetFields rest result
      else case targetFields (tfieldKey sf) of
          Some tf \<Rightarrow>
            (let oldLine = formatField tf; newLine = formatTransformedField sf in
             if oldLine \<noteq> newLine
             then diffSourceLoop targetFields rest
                    (result\<lparr>HasChanges := True,
                       Lines := Lines result
                         @ [\<lparr>Type = DiffRemoved, Content = oldLine\<rparr>,
                            \<lparr>Type = DiffAdded, Content = newLine\<rparr>]\<rparr>)
             else diffSourceLoop targetFields rest
                    (result\<lparr>Lines := Lines result
                         @ [\<lparr>Type = DiffUnchanged, Content = newLine\<rparr>]\<rparr>))
        | None \<Rightarrow>
            diffSourceLoop targetFields rest
              (result\<lparr>HasChanges := True,
                 Lines := Lines result
                   @ [\<lparr>Type = DiffAdded, Content = formatTransformedField sf\<rparr>]\<rparr>))"

text \<open>The loop of \<open>ComputeDiff\<close> over the target fields, for the removed ones.\<close>

fun diffTargetLoop ::
  "(string \<rightharpoonup> TransformedField) \<Rightarrow> ParsedField list \<Rightarrow> DiffResult \<Rightarrow> DiffResult"
where
  "diffTargetLoop sourceFields [] result = result"
| "diffTargetLoop sourceFields (tf # rest) result =
     (if sourceFields (fieldKey tf) = None
      then (if isFieldCommented tf then diffTargetLoop sourceFields rest result
            else diffTargetLoop sourceFields rest
                   (result\<lparr>HasChanges := True,
                      Lines := Lines result
                        @ [\<lparr>Type = DiffRemoved, Content = formatField tf\<rparr>]\<rparr>))
      else diffTargetLoop sourceFields rest result)"

definition ComputeDiff :: "ParsedStruct \<Rightarrow> TransformResult \<Rightarrow> DiffResult" where
  "ComputeDiff targetStruct transformed =
    (let result = \<lparr>StructName = ParsedStruct.Name targetStruct, HasChanges = False,
                    Lines = []\<rparr>;
         targetFields = foldl (\<lambda>m f. m(fieldKey f \<mapsto> f)) Map.empty
                          (ParsedStruct.Fields targetStruct);
         sourceFields = foldl (\<lambda>m f. m(tfieldKey f \<mapsto> f)) Map.empty
                          (Fields transformed);
         result = result\<lparr>Lines := Lines result
                    @ [\<lparr>Type = DiffUnchanged,
                        Content = ''type '' @ ParsedStruct.Name targetStruct @ '' struct {''\<rparr>]\<rparr>;
         result = diffSourceLoop targetFields (Fields transformed) result;
         result = diffTargetLoop sourceFields (ParsedStruct.Fields targetStruct) result
     in result\<lparr>Lines := Lines result @ [\<lparr>Type = DiffUnchanged, Content = ''}''\<rparr>]\<rparr>)"

section \<open>writer.go\<close>

text \<open>
  The scan of \<open>transformTagsHelper\<close> for the end of a tag value: \<open>end\<close> moves right
  until the counter \<open>depth\<close> reaches zero at a quote that no backslash precedes.
\<close>

function scanEnd :: "string \<Rightarrow> nat \<Rightarrow> nat \<Rightarrow> nat" where
  "scanEnd result end depth =
     (if end < length result \<and> 0 < depth
      then scanEnd result (Suc end)
             (if result ! end = CHR 0x22 \<and> (end = 0 \<or> result ! (end - 1) \<noteq> CHR 0x5C)
              then depth - 1 else depth)
      else end)"
  by pat_completeness auto
termination
  by (relation "measure (\<lambda>(result, end, depth). length result - end)") auto

declare scanEnd.simps [simp del]

text \<open>
  The inner loop of \<open>transformTagsHelper\<close> for one key: while \<open>key:"\<close> occurs in
  \<open>result\<close>, cut it out with its value and join what is left with one space. Every
  round makes \<open>result\<close> shorter, so the loop ends.
\<close>

function removeKey :: "string \<Rightarrow> string \<Rightarrow> string" where
  "removeKey key result =
     (case Index result (key @ [CHR 0x3A, CHR 0x22]) of
        None \<Rightarrow> result
      | Some start \<Rightarrow>
          (let end = scanEnd result (start + length key + 2) 1;
               prefix = TrimRight (take start result) (CHR 0x20);
               suffix = TrimLeft (drop end result) (CHR 0x20)
           in removeKey key
                (prefix @ (if prefix \<noteq> '''' \<and> suffix \<noteq> '''' then '' '' else '''') @ suffix)))"
  by pat_completeness auto
termination
proof (relation "measure (\<lambda>(key, result). length result)")
  show "wf (measure (\<lambda>(key, result). length result))" by simp
next
  fix key result :: string and start e :: nat and prefix suffix :: string
  assume idx: "Index result (key @ [CHR 0x3A, CHR 0x22]) = Some start"
    and e: "e = scanEnd result (start + length key + 2) 1"
    and p: "prefix = TrimRight (take start result) (CHR 0x20)"
    and s: "suffix = TrimLeft (drop e result) (CHR 0x20)"
  have Index_bound: "i + length sub \<le> length s" if "Index s sub = Some i"
    for s sub :: string and i
    using that
  proof (induction s arbitrary: i)
    case Nil
    then show ?case by (simp split: if_splits)
  next
    case (Cons c s)
    show ?case
    proof (cases "HasPrefix (c # s) sub")
      case True
      then have "length sub \<le> length (c # s)"
        unfolding HasPrefix_def by (metis length_take min.cobounded1)
      with True Cons.prems show ?thesis by simp
    next
      case False
      with Cons.prems obtain j where "Index s sub = Some j" "i = Suc j" by auto
      with Cons.IH show ?thesis by simp
    qed
  qed
  have scanEnd_ge: "pos \<le> scanEnd r pos depth" for r pos depth
  proof (induction r pos depth rule: scanEnd.induct)
    case (1 r pos depth)
    show ?case
    proof (cases "pos < length r \<and> 0 < depth")
      case True
      with 1 have "Suc pos \<le> scanEnd r (Suc pos)
               (if r ! pos = CHR 0x22 \<and> (pos = 0 \<or> r ! (pos - 1) \<noteq> CHR 0x5C)
                then depth - 1 else depth)" by blast
      then have "pos \<le> scanEnd r (Suc pos)
               (if r ! pos = CHR 0x22 \<and> (pos = 0 \<or> r ! (pos - 1) \<noteq> CHR 0x5C)
                then depth - 1 else depth)" by linarith
      with True show ?thesis by (subst scanEnd.simps) simp
    next
      case False
      then show ?thesis by (subst scanEnd.simps) auto
    qed
  qed
  from Index_bound [OF idx] have b: "start + length key + 2 \<le> length result" by simp
  have ge: "start + length key + 2 \<le> e" unfolding e by (rule scanEnd_ge)
  have "length prefix \<le> start"
    unfolding p TrimRight_def
    by (metis length_dropWhile_le length_rev length_take min.cobounded2 order_trans)
  moreover have "length suffix \<le> length result - e"
    unfolding s TrimLeft_def by (metis length_dropWhile_le length_drop)
  ultimately show "((key, prefix @ (if prefix \<noteq> '''' \<and> suffix \<noteq> '''' then '' '' else '''') @ suffix),
      (key, result)) \<in> measure (\<lambda>(key, result). length result)"
    using b ge by auto
qed

declare removeKey.simps [simp del]

text \<open>
  \<open>transformTagsHelper\<close> ranges over the keys of a Go map, in an order the language leaves
  open: \<open>keys\<close> is the list of the keys in the order the loop visits them.
\<close>

definition transformTagsHelper :: "string \<Rightarrow> string list \<Rightarrow> string \<times> bool" where
  "transformTagsHelper tagStr keys =
    (if tagStr = '''' then ('''', False)
     else let tagStr = Trim tagStr (CHR 0x60) in
       if tagStr = '''' then ('''', False)
       else let result = TrimSpace (foldl (\<lambda>result key. removeKey key result) tagStr keys) in
         if result = '''' then ('''', True)
         else ([CHR 0x60] @ result @ [CHR 0x60], True))"

definition buildField :: "TransformedField \<Rightarrow> dst_Field" where
  "buildField tf =
     DstField
       (if \<not> IsEmbedded tf then [ParsedField.Name tf] else [])
       (if NewType tf \<noteq> '''' \<and> NewType tf \<noteq> ParsedField.Type tf then Ident (NewType tf)
        else cloneExpr (TypeExpr tf))
       (if NewTags tf \<noteq> '''' then Some (NewTags tf) else None)
       SpaceNone
       (Comments tf)"

text \<open>
  \<open>visit\<close> gives the order in which the loop over the map built from \<open>removeTagKeys\<close>
  visits its keys.
\<close>

definition buildDeprecatedField ::
  "(string list \<Rightarrow> string list) \<Rightarrow> ParsedField \<Rightarrow> string \<Rightarrow> string list \<Rightarrow> dst_Field"
where
  "buildDeprecatedField visit pf message removeTagKeys =
     DstField
       (if \<not> IsEmbedded pf then [ParsedField.Name pf] else [])
       (if TypeExpr pf \<noteq> NilExpr then cloneExpr (TypeExpr pf)
        else Ident (ParsedField.Type pf))
       (if Tags pf \<noteq> ''''
        then (case transformTagsHelper (Tags pf) (visit removeTagKeys) of
                (newTags, _) \<Rightarrow> if newTags \<noteq> '''' then Some newTags else None)
        else None)
       NewLine
       [''// Deprecated: '' @ (if message = '''' then ''removed from server'' else message)]"

text \<open>The identity key of \<open>BuildFieldsFromTransform\<close>: the type of an embedded field, else the name.\<close>

definition buildKey :: "'a ParsedField_scheme \<Rightarrow> string" where
  "buildKey f = (if IsEmbedded f then ParsedField.Type f else ParsedField.Name f)"

fun buildSourceLoop :: "TransformedField list \<Rightarrow> dst_Field list \<Rightarrow> dst_Field list" where
  "buildSourceLoop [] result = result"
| "buildSourceLoop (tf # rest) result =
     (if ShouldExclude tf then buildSourceLoop rest result
      else buildSourceLoop rest (result @ [buildField tf]))"

fun buildExistingLoop ::
  "(string list \<Rightarrow> string list) \<Rightarrow> (string \<rightharpoonup> TransformedField) \<Rightarrow> MergeOptions \<Rightarrow>
   ParsedField list \<Rightarrow> dst_Field list \<Rightarrow> dst_Field list"
where
  "buildExistingLoop visit transformedMap opts [] result = result"
| "buildExistingLoop visit transformedMap opts (ef # rest) result =
     (if transformedMap (buildKey ef) = None
      then (if MergeOptions.MarkDeprecated opts
            then buildExistingLoop visit transformedMap opts rest
                   (result @ [buildDeprecatedField visit ef (DeprecationMessage opts)
                                (MergeOptions.RemoveTags opts)])
            else buildExistingLoop visit transformedMap opts rest result)
      else buildExistingLoop visit transformedMap opts rest result)"

definition BuildFieldsFromTransform ::
  "(string list \<Rightarrow> string list) \<Rightarrow> TransformResult \<Rightarrow> ParsedField list \<Rightarrow> MergeOptions \<Rightarrow>
   dst_Field list"
where
  "BuildFieldsFromTransform visit transformed existingFields opts =
    (let transformedMap = foldl (\<lambda>m f. m(buildKey f \<mapsto> f)) Map.empty (Fields transformed);
         result = buildSourceLoop (Fields transformed) []
     in buildExistingLoop visit transformedMap opts existingFields result)"

section \<open>main.go\<close>

record SummaryStats =
  TotalStructs :: int
  ChangedStructs :: int
  NewFields :: int
  RemovedFields :: int
  ModifiedTags :: int
  ExcludedFields :: int

text \<open>The \<open>Syncer\<close>, with \<open>Transform\<close> for its \<open>Config.Transform\<close>.\<close>

record Syncer =
  Transform :: TransformOpts
  DryRun :: bool
  ShowDiff :: bool
  StructFilter :: string
  MarkDeprecated :: bool
  PruneDeprecated :: bool
  stats :: SummaryStats

text \<open>
  What the file system holds for one entry of \<open>Config.Structs\<close> without
  \<open>include_types\<close>: its name, the field list of the struct of that name in the source
  file and in the target file (\<open>None\<close> when resolving, reading, parsing or extracting
  returns an error), and whether \<open>os.WriteFile\<close> succeeds on the target file.
\<close>

record StructFiles =
  DefName :: string
  SourceFields :: "dst_Field list option"
  TargetFields :: "dst_Field list option"
  WriteOk :: bool

text \<open>
  \<open>WriteFile\<close> prints the tree with the \<open>Restorer\<close> of dst, which panics with
  \<open>duplicate node\<close> when one node occurs twice in the tree it prints. The parser makes
  every node once, and \<open>buildField\<close> and \<open>buildDeprecatedField\<close> make their nodes afresh
  apart from what \<open>cloneExpr\<close> hands back without a copy. \<open>extractField\<close> gives every name
  of one field the same type expression. So two fields of the list a run builds hold a
  common node exactly when they are built from two names of one field whose type is
  cloned and keeps a node: two kept upstream fields whose type is not remapped, or two
  deprecated stubs of target fields.
\<close>

definition clonesType :: "TransformedField \<Rightarrow> bool" where
  "clonesType tf = (\<not> (NewType tf \<noteq> '''' \<and> NewType tf \<noteq> ParsedField.Type tf))"

definition duplicateNode ::
  "structtag \<Rightarrow> TransformOpts \<Rightarrow> MergeOptions \<Rightarrow> string \<Rightarrow> dst_Field list \<Rightarrow> dst_Field list \<Rightarrow> bool"
where
  "duplicateNode lib opts mergeOpts name sourceList targetList =
    (let transformed = TransformStruct lib (ExtractStruct name sourceList) opts
     in list_ex (\<lambda>field. keepsNode (FieldType field)
                  \<and> 2 \<le> length (filter (\<lambda>tf. \<not> ShouldExclude tf \<and> clonesType tf)
                       (TransformResult.Fields
                          (TransformStruct lib (ExtractStruct name [field]) opts))))
          sourceList
        \<or> (MergeOptions.MarkDeprecated mergeOpts
            \<and> list_ex (\<lambda>field. keepsNode (FieldType field)
                  \<and> 2 \<le> length (filter
                       (\<lambda>ef. buildKey ef \<notin> set (map buildKey (TransformResult.Fields transformed)))
                       (extractField field)))
                 targetList))"

text \<open>
  The errors \<open>syncStruct\<close> returns, and \<open>Panic\<close> for the panic of the \<open>Restorer\<close>, which
  is no return at all: it ends the process.
\<close>

datatype SyncError = SourceError | TargetError | WriteError | Panic

text \<open>
  What one call of \<open>syncStruct\<close> leaves: the error it returns, the diff it computed,
  the field list it wrote into the target struct, and the syncer with its statistics.
\<close>

record SyncOutcome =
  Error :: "SyncError option"
  Diff :: "DiffResult option"
  Written :: "dst_Field list option"
  After :: Syncer

definition addModifiedTags :: "Syncer \<Rightarrow> int \<Rightarrow> Syncer" where
  "addModifiedTags s n =
     s\<lparr>stats := (stats s)\<lparr>ModifiedTags := SummaryStats.ModifiedTags (stats s) + n\<rparr>\<rparr>"

definition syncStruct ::
  "structtag \<Rightarrow> (string list \<Rightarrow> string list) \<Rightarrow> Syncer \<Rightarrow> StructFiles \<Rightarrow> SyncOutcome"
where
  "syncStruct lib visit s def =
    (case SourceFields def of
       None \<Rightarrow> \<lparr>Error = Some SourceError, Diff = None, Written = None, After = s\<rparr>
     | Some sourceList \<Rightarrow>
    (case TargetFields def of
       None \<Rightarrow> \<lparr>Error = Some TargetError, Diff = None, Written = None, After = s\<rparr>
     | Some targetList \<Rightarrow>
      (let sourceStruct = ExtractStruct (DefName def) sourceList;
           targetStruct = ExtractStruct (DefName def) targetList;
           transformed = TransformStruct lib sourceStruct (Transform s);
           diff = ComputeDiff targetStruct transformed;
           s = (if HasChanges diff
                then s\<lparr>stats := (stats s)\<lparr>ChangedStructs := ChangedStructs (stats s) + 1\<rparr>\<rparr>
                else s)
       in if \<not> DryRun s \<and> HasChanges diff
          then (let mergeOpts =
                      \<lparr>MergeOptions.MarkDeprecated = Syncer.MarkDeprecated s,
                       DeprecationMessage = ''removed from server'',
                       MergeOptions.PruneDeprecated = Syncer.PruneDeprecated s,
                       MergeOptions.RemoveTags = TransformOpts.RemoveTags (Transform s)\<rparr>;
                    newFields = BuildFieldsFromTransform visit transformed
                                  (ParsedStruct.Fields targetStruct) mergeOpts
                in if duplicateNode lib (Transform s) mergeOpts (DefName def)
                        sourceList targetList
                   then \<lparr>Error = Some Panic, Diff = Some diff, Written = None, After = s\<rparr>
                   else if \<not> WriteOk def
                   then \<lparr>Error = Some WriteError, Diff = Some diff, Written = None, After = s\<rparr>
                   else \<lparr>Error = None, Diff = Some diff, Written = Some newFields,
                         After = addModifiedTags s (TransformResult.ModifiedTags transformed)\<rparr>)
          else \<lparr>Error = None, Diff = Some diff, Written = None,
                After = addModifiedTags s (TransformResult.ModifiedTags transformed)\<rparr>)))"

text \<open>
  The loop of \<open>Run\<close> over the struct definitions; \<open>None\<close> when a panic ends the process
  before the loop does.
\<close>

fun Run ::
  "structtag \<Rightarrow> (string list \<Rightarrow> string list) \<Rightarrow> Syncer \<Rightarrow> StructFiles list \<Rightarrow> Syncer option"
where
  "Run lib visit s [] = Some s"
| "Run lib visit s (structDef # rest) =
     (if StructFilter s \<noteq> '''' \<and> DefName structDef \<noteq> StructFilter s
      then Run lib visit s rest
      else (let out = syncStruct lib visit s structDef in
            if Error out = Some Panic then None
            else if Error out \<noteq> None then Run lib visit (After out) rest
            else Run lib visit
                   ((After out)\<lparr>stats := (stats (After out))
                       \<lparr>TotalStructs := TotalStructs (stats (After out)) + 1\<rparr>\<rparr>) rest))"

section \<open>A tag library for plain tags\<close>

text \<open>
  To run the model on concrete fields, \<open>plainTags\<close> stands for the library on tags of
  the plain form \<open>key:"name,option" key:"name"\<close>, without escape sequences: a value
  holding a backslash is refused. A key is a run of characters above the space other
  than colon, quote and DEL.
\<close>

definition keyChar :: "char \<Rightarrow> bool" where
  "keyChar c = ((0x20 :: nat) < of_char c \<and> c \<noteq> CHR 0x3A \<and> c \<noteq> CHR 0x22 \<and> c \<noteq> CHR 0x7F)"

fun splitComma :: "string \<Rightarrow> string list" where
  "splitComma [] = [[]]"
| "splitComma (c # s) =
     (if c = CHR 0x2C then [] # splitComma s
      else (case splitComma s of [] \<Rightarrow> [[c]] | w # ws \<Rightarrow> (c # w) # ws))"

function plainParse :: "string \<Rightarrow> structtag_Tag list option" where
  "plainParse tag =
    (let tag = dropWhile (\<lambda>c. c = CHR 0x20) tag in
     if tag = [] then Some []
     else let key = takeWhile keyChar tag; rest = dropWhile keyChar tag in
       if key = [] \<or> \<not> HasPrefix rest [CHR 0x3A, CHR 0x22] then None
       else let body = drop 2 rest;
                val = takeWhile (\<lambda>c. c \<noteq> CHR 0x22) body;
                after = dropWhile (\<lambda>c. c \<noteq> CHR 0x22) body
            in if after = [] \<or> CHR 0x5C \<in> set val then None
               else (case plainParse (tl after) of
                       None \<Rightarrow> None
                     | Some tags \<Rightarrow>
                         Some (\<lparr>Key = key, Name = hd (splitComma val),
                                Options = tl (splitComma val)\<rparr> # tags)))"
  by pat_completeness auto
termination
proof (relation "measure length")
  show "wf (measure length)" by simp
next
  fix tag t key rest body val after :: string
  assume t: "t = dropWhile (\<lambda>c. c = CHR 0x20) tag"
    and rest: "rest = dropWhile keyChar t"
    and body: "body = drop 2 rest"
    and after: "after = dropWhile (\<lambda>c. c \<noteq> CHR 0x22) body"
    and ne: "\<not> (after = [] \<or> CHR 0x5C \<in> set val)"
  have "length after \<le> length body" unfolding after by (rule length_dropWhile_le)
  also have "\<dots> \<le> length rest" unfolding body by simp
  also have "\<dots> \<le> length t" unfolding rest by (rule length_dropWhile_le)
  also have "\<dots> \<le> length tag" unfolding t by (rule length_dropWhile_le)
  finally have "length after \<le> length tag" .
  moreover from ne have "length (tl after) < length after" by (cases after) auto
  ultimately show "(tl after, tag) \<in> measure length" by simp
qed

declare plainParse.simps [simp del]

definition plainGet :: "structtag_Tag list \<Rightarrow> string \<Rightarrow> structtag_Tag option" where
  "plainGet tags key = find (\<lambda>tag. Key tag = key) tags"

definition plainSet :: "structtag_Tag list \<Rightarrow> structtag_Tag \<Rightarrow> structtag_Tag list" where
  "plainSet tags tag =
     (if Key tag = '''' then tags
      else if list_ex (\<lambda>tg. Key tg = Key tag) tags
      then map (\<lambda>tg. if Key tg = Key tag then tag else tg) tags
      else tags @ [tag])"

fun joinWith :: "string \<Rightarrow> string list \<Rightarrow> string" where
  "joinWith sep [] = ''''"
| "joinWith sep [w] = w"
| "joinWith sep (w # ws) = w @ sep @ joinWith sep ws"

definition plainString :: "structtag_Tag list \<Rightarrow> string" where
  "plainString tags =
     joinWith '' ''
       (map (\<lambda>tag. Key tag @ [CHR 0x3A, CHR 0x22]
                    @ joinWith '','' (structtag_Tag.Name tag # Options tag) @ [CHR 0x22]) tags)"

definition plainTags :: structtag where
  "plainTags = \<lparr>Parse = plainParse, Tags_Get = plainGet, Tags_Set = plainSet,
                 Tags_String = plainString\<rparr>"

section \<open>Notions for the statements\<close>

subsection \<open>The transformer, field by field\<close>

text \<open>
  Which fields the loop of \<open>TransformStruct\<close> drops, what it makes of a field it keeps,
  the name it records for a dropped one, and whether it counts a kept one as modified.
\<close>

definition isExcluded :: "structtag \<Rightarrow> TransformOpts \<Rightarrow> ParsedField \<Rightarrow> bool" where
  "isExcluded lib opts f =
     ((IsEmbedded f \<and> ParsedField.Type f \<in> set (ExcludeEmbedded opts))
      \<or> shouldExcludeField lib (Tags f))"

definition transformOne :: "structtag \<Rightarrow> TransformOpts \<Rightarrow> ParsedField \<Rightarrow> TransformedField" where
  "transformOne lib opts f =
     \<lparr>ParsedField.Name = ParsedField.Name f, Type = ParsedField.Type f,
      TypeExpr = TypeExpr f, Tags = Tags f, Comments = Comments f,
      IsEmbedded = IsEmbedded f,
      NewTags = (case transformTags lib (Tags f) (set (TransformOpts.RemoveTags opts)) of
                   (newTags, modified) \<Rightarrow> if modified then newTags else Tags f),
      NewType = (case TypeMappings opts (ParsedField.Type f) of
                   Some mappedType \<Rightarrow> mappedType
                 | None \<Rightarrow> ParsedField.Type f),
      ShouldExclude = False\<rparr>"

definition excludedName :: "TransformOpts \<Rightarrow> ParsedField \<Rightarrow> string" where
  "excludedName opts f =
     (if IsEmbedded f \<and> ParsedField.Type f \<in> set (ExcludeEmbedded opts)
      then ParsedField.Type f else ParsedField.Name f)"

definition tagsModified :: "structtag \<Rightarrow> TransformOpts \<Rightarrow> ParsedField \<Rightarrow> bool" where
  "tagsModified lib opts f =
     snd (transformTags lib (Tags f) (set (TransformOpts.RemoveTags opts)))"

subsection \<open>The diff, line by line\<close>

text \<open>
  The diff as the specification words it. The target field a key stands for is the last
  one of that key in the list; a source field gives one unchanged line, or the removed
  old line and then the added new one, or one added line; a target field is a pending
  removal when no source field has its key and it is not commented out.
\<close>

definition lastWithKey :: "ParsedField list \<Rightarrow> string \<Rightarrow> ParsedField option" where
  "lastWithKey fs key = find (\<lambda>f. fieldKey f = key) (rev fs)"

definition sourceEntry :: "ParsedField list \<Rightarrow> TransformedField \<Rightarrow> DiffLine list" where
  "sourceEntry targetFields sf =
     (case lastWithKey targetFields (tfieldKey sf) of
        None \<Rightarrow> [\<lparr>DiffLine.Type = DiffAdded, Content = formatTransformedField sf\<rparr>]
      | Some tf \<Rightarrow>
          if formatField tf = formatTransformedField sf
          then [\<lparr>DiffLine.Type = DiffUnchanged, Content = formatTransformedField sf\<rparr>]
          else [\<lparr>DiffLine.Type = DiffRemoved, Content = formatField tf\<rparr>,
                \<lparr>DiffLine.Type = DiffAdded, Content = formatTransformedField sf\<rparr>])"

definition entryChanges :: "ParsedField list \<Rightarrow> TransformedField \<Rightarrow> bool" where
  "entryChanges targetFields sf =
     (case lastWithKey targetFields (tfieldKey sf) of
        None \<Rightarrow> True
      | Some tf \<Rightarrow> formatField tf \<noteq> formatTransformedField sf)"

definition pendingRemoval :: "TransformedField list \<Rightarrow> ParsedField \<Rightarrow> bool" where
  "pendingRemoval sourceFields tf =
     (fieldKey tf \<notin> set (map tfieldKey sourceFields) \<and> \<not> isFieldCommented tf)"

definition diffLinesInOrder :: "ParsedStruct \<Rightarrow> TransformResult \<Rightarrow> DiffLine list" where
  "diffLinesInOrder targetStruct transformed =
     [\<lparr>DiffLine.Type = DiffUnchanged,
       Content = ''type '' @ ParsedStruct.Name targetStruct @ '' struct {''\<rparr>]
     @ concat (map (sourceEntry (ParsedStruct.Fields targetStruct))
                 (filter (\<lambda>sf. \<not> ShouldExclude sf) (TransformResult.Fields transformed)))
     @ map (\<lambda>tf. \<lparr>DiffLine.Type = DiffRemoved, Content = formatField tf\<rparr>)
         (filter (pendingRemoval (TransformResult.Fields transformed))
            (ParsedStruct.Fields targetStruct))
     @ [\<lparr>DiffLine.Type = DiffUnchanged, Content = ''}''\<rparr>]"

subsection \<open>Fields as the parser gives them, and the keys of a built list\<close>

text \<open>
  What the parser makes of its own fields: the type text is the rendering of the type
  expression, and an embedded field has its type text for a name.
\<close>

definition parsedOk :: "ParsedField \<Rightarrow> bool" where
  "parsedOk f =
     (ParsedField.Type f = exprToString (TypeExpr f)
      \<and> (IsEmbedded f \<longrightarrow> ParsedField.Name f = ParsedField.Type f))"

text \<open>The identity keys of the fields of a built list, as \<open>extractField\<close> gives them on its nodes.\<close>

definition outputKeys :: "dst_Field list \<Rightarrow> string list" where
  "outputKeys fieldList = map buildKey (concat (map extractField fieldList))"

subsection \<open>Nodes of the builder, and the file read back\<close>

text \<open>
  What \<open>extractField\<close> gives on the node \<open>buildField\<close> made, and on the node
  \<open>buildDeprecatedField\<close> made: the built node itself, before it is printed.
\<close>

definition builtField :: "TransformedField \<Rightarrow> ParsedField" where
  "builtField tf =
     (let typeStr = exprToString (FieldType (buildField tf))
      in \<lparr>ParsedField.Name = (if IsEmbedded tf then typeStr else ParsedField.Name tf),
          Type = typeStr, TypeExpr = FieldType (buildField tf),
          Tags = NewTags tf, Comments = Comments tf, IsEmbedded = IsEmbedded tf\<rparr>)"

definition builtStub :: "(string list \<Rightarrow> string list) \<Rightarrow> MergeOptions \<Rightarrow> ParsedField \<Rightarrow> ParsedField" where
  "builtStub visit opts ef =
     (let stub = buildDeprecatedField visit ef (DeprecationMessage opts)
                   (MergeOptions.RemoveTags opts);
          typeStr = exprToString (FieldType stub)
      in \<lparr>ParsedField.Name = (if IsEmbedded ef then typeStr else ParsedField.Name ef),
          Type = typeStr, TypeExpr = FieldType stub,
          Tags = (case FieldTag stub of None \<Rightarrow> '''' | Some v \<Rightarrow> v),
          Comments = Decs_Start stub, IsEmbedded = IsEmbedded ef\<rparr>)"

text \<open>A transformed field whose built node has the key and the text of the field.\<close>

definition stable :: "TransformedField \<Rightarrow> bool" where
  "stable tf = (fieldKey (builtField tf) = tfieldKey tf
                \<and> formatField (builtField tf) = formatTransformedField tf)"

text \<open>
  The next run does not see the built nodes: it parses the file that the \<open>Restorer\<close>
  printed from them, and both the printer and the parser belong to dst. The text of a
  built node need not parse back to a node that renders the same: a type mapping to
  \<open>[16]byte\<close> is built as a name with that text and read back as an array, which renders
  \<open>[...]byte\<close>. So the field list the next run reads is a list of its own here, \<open>reread\<close>,
  and \<open>readsBackAs\<close> says what the diff needs of it: field by field, it has the identity
  key and the rendered line of the list that was written, and where no upstream field has
  the key, it is commented out or not as the written field is.
\<close>

definition sameForDiff :: "TransformedField list \<Rightarrow> ParsedField \<Rightarrow> ParsedField \<Rightarrow> bool" where
  "sameForDiff sourceFields r w =
     (fieldKey r = fieldKey w \<and> formatField r = formatField w
      \<and> (fieldKey w \<in> set (map tfieldKey sourceFields)
          \<or> isFieldCommented r = isFieldCommented w))"

definition readsBackAs :: "TransformResult \<Rightarrow> dst_Field list \<Rightarrow> dst_Field list \<Rightarrow> bool" where
  "readsBackAs transformed reread written =
     list_all2 (sameForDiff (TransformResult.Fields transformed))
       (concat (map extractField reread)) (concat (map extractField written))"

subsection \<open>Type expressions of names, qualified names, pointers, slices and maps\<close>




subsection \<open>The counters that only the summary reads\<close>

text \<open>The counts of new, removed and excluded fields in the statistics of a syncer.\<close>

definition untouched :: "Syncer \<Rightarrow> int \<times> int \<times> int" where
  "untouched s = (NewFields (stats s), RemovedFields (stats s),
                  SummaryStats.ExcludedFields (stats s))"

section \<open>The transformer in closed form\<close>

lemma transformField_excluded:
  "isExcluded lib opts f \<Longrightarrow>
   transformField lib opts result f =
     result\<lparr>TransformResult.ExcludedFields := TransformResult.ExcludedFields result @ [excludedName opts f]\<rparr>"
  by (auto simp: isExcluded_def transformField_def excludedName_def)

lemma transformField_retained:
  "\<not> isExcluded lib opts f \<Longrightarrow>
   transformField lib opts result f =
     result\<lparr>TransformResult.Fields := TransformResult.Fields result @ [transformOne lib opts f],
       TransformResult.ModifiedTags := TransformResult.ModifiedTags result
                         + (if tagsModified lib opts f then 1 else 0)\<rparr>"
  by (auto simp: isExcluded_def transformField_def transformOne_def tagsModified_def Let_def
      split: option.splits prod.splits)

lemma foldl_transformField:
  "foldl (transformField lib opts) result fs =
     \<lparr>TransformResult.Fields = TransformResult.Fields result
         @ map (transformOne lib opts) (filter (\<lambda>f. \<not> isExcluded lib opts f) fs),
      TransformResult.ExcludedFields = TransformResult.ExcludedFields result
         @ map (excludedName opts) (filter (isExcluded lib opts) fs),
      TransformResult.ModifiedTags = TransformResult.ModifiedTags result
         + int (length (filter (\<lambda>f. \<not> isExcluded lib opts f \<and> tagsModified lib opts f) fs))\<rparr>"
proof (induction fs arbitrary: result)
  case Nil
  show ?case by simp
next
  case (Cons f fs)
  show ?case
  proof (cases "isExcluded lib opts f")
    case True
    then show ?thesis by (simp add: Cons.IH transformField_excluded)
  next
    case False
    then show ?thesis by (simp add: Cons.IH transformField_retained)
  qed
qed

lemma TransformStruct_closed:
  "TransformStruct lib ps opts =
     \<lparr>TransformResult.Fields = map (transformOne lib opts)
                 (filter (\<lambda>f. \<not> isExcluded lib opts f) (ParsedStruct.Fields ps)),
      TransformResult.ExcludedFields = map (excludedName opts)
                 (filter (isExcluded lib opts) (ParsedStruct.Fields ps)),
      TransformResult.ModifiedTags = int (length (filter (\<lambda>f. \<not> isExcluded lib opts f \<and> tagsModified lib opts f)
                 (ParsedStruct.Fields ps)))\<rparr>"
  by (simp add: TransformStruct_def foldl_transformField)

section \<open>Cloning and rendering\<close>

lemma exprToString_cloneExpr: "exprToString (cloneExpr e) = exprToString e"
  by (induction e rule: cloneExpr.induct) simp_all

section \<open>Type mappings (C5)\<close>

text \<open>
  Claim C5. Every field the transformer keeps gets as its new type the entry of
  \<open>type_mappings\<close> under the exact text of its declared type, looked up once, and its
  declared type itself when there is no such entry: \<open>pp.PaymentState\<close> maps to \<open>string\<close>
  under the mapping of \<open>pp.PaymentState\<close> to \<open>string\<close>, \<open>*pp.PaymentState\<close> stays, and a
  mapping of \<open>string\<close> is not applied to the result.
\<close>

theorem C5_type_mapping_exact:
  assumes "tf \<in> set (TransformResult.Fields (TransformStruct lib ps opts))"
  shows "NewType tf =
           (case TypeMappings opts (ParsedField.Type tf) of
              Some mappedType \<Rightarrow> mappedType
            | None \<Rightarrow> ParsedField.Type tf)"
proof -
  from assms obtain f where "tf = transformOne lib opts f"
    by (auto simp: TransformStruct_closed)
  then show ?thesis
    by (cases "TypeMappings opts (ParsedField.Type f)") (simp_all add: transformOne_def)
qed

theorem C5_type_mapping_exact_witness:
  "map ParsedField.Type
     (TransformResult.Fields (TransformStruct plainTags
        (ExtractStruct ''Payment''
           [DstField [''State''] (SelectorExpr (Ident ''pp'') ''PaymentState'') None SpaceNone [],
            DstField [''Last''] (StarExpr (SelectorExpr (Ident ''pp'') ''PaymentState'')) None
              SpaceNone []])
        \<lparr>TransformOpts.RemoveTags = [], ExcludeEmbedded = [],
         TypeMappings = [''pp.PaymentState'' \<mapsto> ''string'', ''string'' \<mapsto> ''int'']\<rparr>))
     = [''pp.PaymentState'', ''*pp.PaymentState'']
   \<and> map NewType
     (TransformResult.Fields (TransformStruct plainTags
        (ExtractStruct ''Payment''
           [DstField [''State''] (SelectorExpr (Ident ''pp'') ''PaymentState'') None SpaceNone [],
            DstField [''Last''] (StarExpr (SelectorExpr (Ident ''pp'') ''PaymentState'')) None
              SpaceNone []])
        \<lparr>TransformOpts.RemoveTags = [], ExcludeEmbedded = [],
         TypeMappings = [''pp.PaymentState'' \<mapsto> ''string'', ''string'' \<mapsto> ''int'']\<rparr>))
     = [''string'', ''*pp.PaymentState'']"
proof -
  let ?opts = "\<lparr>TransformOpts.RemoveTags = [], ExcludeEmbedded = [],
         TypeMappings = [''pp.PaymentState'' \<mapsto> ''string'', ''string'' \<mapsto> ''int'']\<rparr>"
  let ?ps = "ExtractStruct ''Payment''
           [DstField [''State''] (SelectorExpr (Ident ''pp'') ''PaymentState'') None SpaceNone [],
            DstField [''Last''] (StarExpr (SelectorExpr (Ident ''pp'') ''PaymentState'')) None
              SpaceNone []]"
  let ?tr = "TransformStruct plainTags ?ps ?opts"
  have types: "map ParsedField.Type (TransformResult.Fields ?tr)
                 = [''pp.PaymentState'', ''*pp.PaymentState'']"
    by (simp add: TransformStruct_closed ExtractStruct_def extractField_def isExcluded_def
        shouldExcludeField_def transformOne_def)
  have "\<forall>tf \<in> set (TransformResult.Fields ?tr). NewType tf =
           (case TypeMappings ?opts (ParsedField.Type tf) of
              Some mappedType \<Rightarrow> mappedType
            | None \<Rightarrow> ParsedField.Type tf)"
    using C5_type_mapping_exact [of _ plainTags ?ps ?opts] by blast
  then have "map NewType (TransformResult.Fields ?tr)
      = map (\<lambda>t. case TypeMappings ?opts t of Some mappedType \<Rightarrow> mappedType | None \<Rightarrow> t)
          (map ParsedField.Type (TransformResult.Fields ?tr))"
    by (simp add: comp_def)
  then have "map NewType (TransformResult.Fields ?tr) = [''string'', ''*pp.PaymentState'']"
    unfolding types by simp
  with types show ?thesis by (rule conjI)
qed

section \<open>Annotations that do not parse (C4)\<close>

lemma shouldExcludeField_parse_fails:
  "Parse lib (Trim tagStr (CHR 0x60)) = None \<Longrightarrow> \<not> shouldExcludeField lib tagStr"
  by (simp add: shouldExcludeField_def Let_def)

lemma transformTags_parse_fails:
  "Parse lib (Trim tagStr (CHR 0x60)) = None \<Longrightarrow> \<not> snd (transformTags lib tagStr removeSet)"
  by (simp add: transformTags_def Let_def)

text \<open>
  Claim C4. Let the annotation of a field \<open>f\<close> fail to parse. Then the transformer, which
  is a total function and has no error result, treats \<open>f\<close> among any fields before and
  after it as follows: unless the embedded-type rule drops \<open>f\<close>, it keeps \<open>f\<close> with the
  new annotation equal to the old one, byte for byte; and \<open>f\<close> adds nothing to the count
  of modified annotations.
\<close>

theorem C4_unparsed_annotation_passes:
  assumes "Parse lib (Trim (Tags f) (CHR 0x60)) = None"
  shows "TransformStruct lib \<lparr>ParsedStruct.Name = n, Fields = pre @ [f] @ post\<rparr> opts =
    (let a = TransformStruct lib \<lparr>ParsedStruct.Name = n, Fields = pre\<rparr> opts;
         b = TransformStruct lib \<lparr>ParsedStruct.Name = n, Fields = post\<rparr> opts;
         dropped = (IsEmbedded f \<and> ParsedField.Type f \<in> set (ExcludeEmbedded opts))
     in \<lparr>TransformResult.Fields =
           TransformResult.Fields a
           @ (if dropped then []
              else [\<lparr>ParsedField.Name = ParsedField.Name f, Type = ParsedField.Type f,
                     TypeExpr = TypeExpr f, Tags = Tags f, Comments = Comments f,
                     IsEmbedded = IsEmbedded f,
                     NewTags = Tags f,
                     NewType = (case TypeMappings opts (ParsedField.Type f) of
                                  Some mappedType \<Rightarrow> mappedType
                                | None \<Rightarrow> ParsedField.Type f),
                     ShouldExclude = False\<rparr>])
           @ TransformResult.Fields b,
         TransformResult.ExcludedFields =
           TransformResult.ExcludedFields a
           @ (if dropped then [ParsedField.Type f] else [])
           @ TransformResult.ExcludedFields b,
         TransformResult.ModifiedTags =
           TransformResult.ModifiedTags a + TransformResult.ModifiedTags b\<rparr>)"
proof -
  have ex: "isExcluded lib opts f
              = (IsEmbedded f \<and> ParsedField.Type f \<in> set (ExcludeEmbedded opts))"
    using shouldExcludeField_parse_fails [OF assms] by (simp add: isExcluded_def)
  have unmod: "\<not> tagsModified lib opts f"
    using transformTags_parse_fails [OF assms] by (simp add: tagsModified_def)
  have one: "\<not> isExcluded lib opts f \<Longrightarrow> transformOne lib opts f =
      \<lparr>ParsedField.Name = ParsedField.Name f, Type = ParsedField.Type f,
       TypeExpr = TypeExpr f, Tags = Tags f, Comments = Comments f,
       IsEmbedded = IsEmbedded f, NewTags = Tags f,
       NewType = (case TypeMappings opts (ParsedField.Type f) of
                    Some mappedType \<Rightarrow> mappedType
                  | None \<Rightarrow> ParsedField.Type f),
       ShouldExclude = False\<rparr>"
    using unmod
    by (cases "transformTags lib (Tags f) (set (TransformOpts.RemoveTags opts))")
       (simp add: transformOne_def tagsModified_def)
  show ?thesis
  proof (cases "isExcluded lib opts f")
    case True
    with ex unmod show ?thesis
      by (simp add: TransformStruct_closed Let_def excludedName_def)
  next
    case False
    with ex unmod one show ?thesis
      by (simp add: TransformStruct_closed Let_def)
  qed
qed

theorem C4_unparsed_annotation_passes_witness:
  "Parse plainTags (Trim ''`json=id`'' (CHR 0x60)) = None
   \<and> TransformStruct plainTags
       \<lparr>ParsedStruct.Name = ''User'',
        Fields = [] @ [\<lparr>ParsedField.Name = ''Id'', Type = ''string'', TypeExpr = Ident ''string'',
                        Tags = ''`json=id`'', Comments = [], IsEmbedded = False\<rparr>] @ []\<rparr>
       \<lparr>TransformOpts.RemoveTags = [''xorm''], ExcludeEmbedded = [], TypeMappings = Map.empty\<rparr>
     = \<lparr>TransformResult.Fields =
          [\<lparr>ParsedField.Name = ''Id'', Type = ''string'', TypeExpr = Ident ''string'',
            Tags = ''`json=id`'', Comments = [], IsEmbedded = False,
            NewTags = ''`json=id`'', NewType = ''string'', ShouldExclude = False\<rparr>],
        TransformResult.ExcludedFields = [],
        TransformResult.ModifiedTags = 0\<rparr>"
proof -
  let ?f = "\<lparr>ParsedField.Name = ''Id'', Type = ''string'', TypeExpr = Ident ''string'',
             Tags = ''`json=id`'', Comments = [], IsEmbedded = False\<rparr>"
  let ?opts = "\<lparr>TransformOpts.RemoveTags = [''xorm''], ExcludeEmbedded = [],
                TypeMappings = Map.empty\<rparr>"
  have fails: "Parse plainTags (Trim ''`json=id`'' (CHR 0x60)) = None"
    by (simp add: plainTags_def Trim_def TrimLeft_def TrimRight_def plainParse.simps keyChar_def
        HasPrefix_def)
  then have "Parse plainTags (Trim (Tags ?f) (CHR 0x60)) = None" by simp
  from C4_unparsed_annotation_passes [OF this, of "''User''" "[]" "[]" ?opts] fails
  show ?thesis
    by (simp add: TransformStruct_def Let_def)
qed

section \<open>The order of the diff lines (C6)\<close>

lemma foldl_upd_lookup:
  "foldl (\<lambda>m f. m(key f \<mapsto> f)) m0 fs k =
     (case find (\<lambda>f. key f = k) (rev fs) of Some f \<Rightarrow> Some f | None \<Rightarrow> m0 k)"
  by (induction fs rule: rev_induct) simp_all

lemma targetFields_lookup:
  "foldl (\<lambda>m f. m(fieldKey f \<mapsto> f)) Map.empty fs k = lastWithKey fs k"
  by (simp add: foldl_upd_lookup lastWithKey_def split: option.splits)

lemma sourceFields_lookup_None:
  "(foldl (\<lambda>m f. m(key f \<mapsto> f)) Map.empty fs k = None) = (k \<notin> set (map key fs))"
proof -
  have "foldl (\<lambda>m f. m(key f \<mapsto> f)) Map.empty fs k = find (\<lambda>f. key f = k) (rev fs)"
    by (simp add: foldl_upd_lookup split: option.splits)
  then show ?thesis by (auto simp: find_None_iff)
qed

lemma diffSourceLoop_closed:
  assumes "\<And>k. m k = lastWithKey tfs k"
  shows "diffSourceLoop m sfs result =
     result\<lparr>HasChanges := HasChanges result
                \<or> (\<exists>sf \<in> set sfs. \<not> ShouldExclude sf \<and> entryChanges tfs sf),
            Lines := Lines result
                @ concat (map (sourceEntry tfs) (filter (\<lambda>sf. \<not> ShouldExclude sf) sfs))\<rparr>"
proof (induction sfs arbitrary: result)
  case Nil
  show ?case by simp
next
  case (Cons sf sfs)
  have look: "m (tfieldKey sf) = lastWithKey tfs (tfieldKey sf)" by (rule assms)
  show ?case
  proof (cases "ShouldExclude sf")
    case True
    then show ?thesis by (simp add: Cons.IH)
  next
    case False
    show ?thesis
    proof (cases "lastWithKey tfs (tfieldKey sf)")
      case None
      then have e: "sourceEntry tfs sf
                      = [\<lparr>DiffLine.Type = DiffAdded, Content = formatTransformedField sf\<rparr>]"
        and c: "entryChanges tfs sf"
        by (simp_all add: sourceEntry_def entryChanges_def)
      from None look have "m (tfieldKey sf) = None" by simp
      with False e c show ?thesis by (simp add: Cons.IH)
    next
      case (Some tf)
      with look have m: "m (tfieldKey sf) = Some tf" by simp
      show ?thesis
      proof (cases "formatField tf = formatTransformedField sf")
        case True
        with Some have e: "sourceEntry tfs sf
              = [\<lparr>DiffLine.Type = DiffUnchanged, Content = formatTransformedField sf\<rparr>]"
          and c: "\<not> entryChanges tfs sf"
          by (simp_all add: sourceEntry_def entryChanges_def)
        from False m True e c show ?thesis by (simp add: Cons.IH Let_def)
      next
        case ne: False
        with Some have e: "sourceEntry tfs sf
              = [\<lparr>DiffLine.Type = DiffRemoved, Content = formatField tf\<rparr>,
                 \<lparr>DiffLine.Type = DiffAdded, Content = formatTransformedField sf\<rparr>]"
          and c: "entryChanges tfs sf"
          by (simp_all add: sourceEntry_def entryChanges_def)
        from False m ne e c show ?thesis by (simp add: Cons.IH Let_def)
      qed
    qed
  qed
qed

lemma diffTargetLoop_closed:
  assumes "\<And>k. (m k = None) = (k \<notin> set (map tfieldKey sfs))"
  shows "diffTargetLoop m tfs result =
     result\<lparr>HasChanges := HasChanges result \<or> (\<exists>tf \<in> set tfs. pendingRemoval sfs tf),
            Lines := Lines result
                @ map (\<lambda>tf. \<lparr>DiffLine.Type = DiffRemoved, Content = formatField tf\<rparr>)
                    (filter (pendingRemoval sfs) tfs)\<rparr>"
proof (induction tfs arbitrary: result)
  case Nil
  show ?case by simp
next
  case (Cons tf tfs)
  have look: "(m (fieldKey tf) = None) = (fieldKey tf \<notin> set (map tfieldKey sfs))"
    by (rule assms)
  show ?case
  proof (cases "pendingRemoval sfs tf")
    case True
    with look have "m (fieldKey tf) = None" "\<not> isFieldCommented tf"
      by (simp_all add: pendingRemoval_def)
    with True show ?thesis by (simp add: Cons.IH)
  next
    case False
    with look have "m (fieldKey tf) \<noteq> None \<or> isFieldCommented tf"
      by (auto simp: pendingRemoval_def)
    with False show ?thesis by (auto simp: Cons.IH)
  qed
qed

lemma ComputeDiff_closed:
  "ComputeDiff targetStruct transformed =
     \<lparr>StructName = ParsedStruct.Name targetStruct,
      HasChanges =
        ((\<exists>sf \<in> set (TransformResult.Fields transformed).
             \<not> ShouldExclude sf \<and> entryChanges (ParsedStruct.Fields targetStruct) sf)
         \<or> (\<exists>tf \<in> set (ParsedStruct.Fields targetStruct).
             pendingRemoval (TransformResult.Fields transformed) tf)),
      Lines = diffLinesInOrder targetStruct transformed\<rparr>"
  by (simp add: ComputeDiff_def Let_def diffLinesInOrder_def
      diffSourceLoop_closed [where tfs = "ParsedStruct.Fields targetStruct", OF targetFields_lookup]
      diffTargetLoop_closed [where sfs = "TransformResult.Fields transformed",
        OF sourceFields_lookup_None])

text \<open>
  Claim C6. The lines of the diff are the unchanged header, then the entries of the
  source fields that are not excluded, in the order of the source list, then one
  removed line for each pending removal, in the order of the target list, then the
  unchanged footer. The maps of \<open>ComputeDiff\<close> only answer lookups.
\<close>

theorem C6_diff_line_order:
  "Lines (ComputeDiff targetStruct transformed) = diffLinesInOrder targetStruct transformed"
  by (simp add: ComputeDiff_closed)

theorem C6_diff_line_order_witness:
  "Lines (ComputeDiff
      (ExtractStruct ''T'' [DstField [''B''] (Ident ''int'') None SpaceNone []])
      (TransformStruct plainTags
         (ExtractStruct ''T''
            [DstField [''A''] (Ident ''string'') None SpaceNone [],
             DstField [''B''] (Ident ''int64'') None SpaceNone [],
             DstField [''C''] (Ident ''bool'') None SpaceNone []])
         \<lparr>TransformOpts.RemoveTags = [], ExcludeEmbedded = [], TypeMappings = Map.empty\<rparr>))
   = [\<lparr>DiffLine.Type = DiffUnchanged, Content = ''type T struct {''\<rparr>,
      \<lparr>DiffLine.Type = DiffAdded, Content = CHR 0x09 # ''A string''\<rparr>,
      \<lparr>DiffLine.Type = DiffRemoved, Content = CHR 0x09 # ''B int''\<rparr>,
      \<lparr>DiffLine.Type = DiffAdded, Content = CHR 0x09 # ''B int64''\<rparr>,
      \<lparr>DiffLine.Type = DiffAdded, Content = CHR 0x09 # ''C bool''\<rparr>,
      \<lparr>DiffLine.Type = DiffUnchanged, Content = ''}''\<rparr>]"
  using C6_diff_line_order
    [of "ExtractStruct ''T'' [DstField [''B''] (Ident ''int'') None SpaceNone []]"
        "TransformStruct plainTags
         (ExtractStruct ''T''
            [DstField [''A''] (Ident ''string'') None SpaceNone [],
             DstField [''B''] (Ident ''int64'') None SpaceNone [],
             DstField [''C''] (Ident ''bool'') None SpaceNone []])
         \<lparr>TransformOpts.RemoveTags = [], ExcludeEmbedded = [], TypeMappings = Map.empty\<rparr>"]
  by (simp add: diffLinesInOrder_def TransformStruct_closed ExtractStruct_def extractField_def
      isExcluded_def shouldExcludeField_def transformOne_def transformTags_def
      sourceEntry_def lastWithKey_def pendingRemoval_def fieldKey_def tfieldKey_def
      formatField_def formatTransformedField_def)

section \<open>Commented-out target fields (C10)\<close>

lemma Index_single: "(Index s [c] \<noteq> None) = (c \<in> set s)"
  by (induction s) (auto simp: HasPrefix_def)

lemma Contains_single: "Contains s [c] = (c \<in> set s)"
  unfolding Contains_def by (rule Index_single)

lemma runeWidth_take: "runeWidth ps s \<noteq> 0 \<Longrightarrow> take (runeWidth ps s) s \<in> set ps"
  by (induction ps) (auto simp: HasPrefix_def)

lemma stripRunes_mem:
  "\<forall>p \<in> set ps. c \<notin> set p \<Longrightarrow> (c \<in> set (stripRunes ps s)) = (c \<in> set s)"
proof (induction ps s rule: stripRunes.induct)
  case (1 ps s)
  show ?case
  proof (cases "runeWidth ps s = 0")
    case True
    then show ?thesis by (subst stripRunes.simps) simp
  next
    case False
    have "take (runeWidth ps s) s \<in> set ps" by (rule runeWidth_take [OF False])
    with "1.prems" have "c \<notin> set (take (runeWidth ps s) s)" by blast
    moreover have "set s = set (take (runeWidth ps s) s) \<union> set (drop (runeWidth ps s) s)"
      by (metis append_take_drop_id set_append)
    ultimately have "(c \<in> set (drop (runeWidth ps s) s)) = (c \<in> set s)" by blast
    moreover have "(c \<in> set (stripRunes ps (drop (runeWidth ps s) s)))
                     = (c \<in> set (drop (runeWidth ps s) s))"
      using False "1.prems" by (rule "1.IH")
    ultimately show ?thesis using False by (subst stripRunes.simps) simp
  qed
qed

lemma dot_TrimSpace: "(CHR ''.'' \<in> set (TrimSpace s)) = (CHR ''.'' \<in> set s)"
proof -
  have a: "\<forall>p \<in> set spaceRunes. CHR ''.'' \<notin> set p"
    by (simp add: spaceRunes_def)
  then have b: "\<forall>p \<in> set (map rev spaceRunes). CHR ''.'' \<notin> set p"
    by simp
  have "(CHR ''.'' \<in> set (TrimSpace s))
          = (CHR ''.'' \<in> set (stripRunes (map rev spaceRunes) (rev (stripRunes spaceRunes s))))"
    unfolding TrimSpace_def by simp
  also have "\<dots> = (CHR ''.'' \<in> set (rev (stripRunes spaceRunes s)))"
    by (rule stripRunes_mem) (rule b)
  also have "\<dots> = (CHR ''.'' \<in> set (stripRunes spaceRunes s))" by simp
  also have "\<dots> = (CHR ''.'' \<in> set s)"
    by (rule stripRunes_mem) (rule a)
  finally show ?thesis .
qed

lemma commentedLoop_hit:
  assumes "c \<in> set cs" and "TrimSpace c = ''//'' @ body"
    and "HasPrefix (TrimSpace body) ''*'' \<or> CHR ''.'' \<in> set body"
  shows "commentedLoop cs"
  using assms(1)
proof (induction cs)
  case Nil
  then show ?case by simp
next
  case (Cons d ds)
  show ?case
  proof (cases "d = c")
    case True
    have "HasPrefix (TrimSpace c) ''//''" by (simp add: assms(2) HasPrefix_def)
    moreover have "TrimPrefix (TrimSpace c) ''//'' = body"
      by (simp add: assms(2) TrimPrefix_def HasPrefix_def)
    moreover have "HasPrefix (TrimSpace body) ''*'' \<or> Contains (TrimSpace body) ''.''"
      using assms(3) by (simp add: Contains_single dot_TrimSpace)
    ultimately show ?thesis using True by (simp add: Let_def)
  next
    case False
    with Cons have "commentedLoop ds" by simp
    then show ?thesis by (simp add: Let_def)
  qed
qed

lemma find_app:
  "find P (xs @ ys) = (case find P xs of None \<Rightarrow> find P ys | Some x \<Rightarrow> Some x)"
  by (induction xs) simp_all

lemma lastWithKey_skip:
  "fieldKey f \<noteq> k \<Longrightarrow> lastWithKey (pre @ [f] @ post) k = lastWithKey (pre @ post) k"
  by (simp add: lastWithKey_def find_app split: option.splits)

text \<open>
  Claim C10. Let a target field \<open>f\<close> have no counterpart among the source fields, and
  let one of its comment lines be, up to surrounding white space, \<open>//\<close> followed by a
  text that begins with a star once trimmed or that holds a dot anywhere. Then the diff
  is the same as if \<open>f\<close> were not in the target at all: no line stands for \<open>f\<close> and \<open>f\<close>
  does not set \<open>HasChanges\<close>. A sentence of prose that ends in a period is such a text.
\<close>

theorem C10_commented_field_ignored:
  assumes "fieldKey f \<notin> set (map tfieldKey (TransformResult.Fields transformed))"
    and "c \<in> set (Comments f)"
    and "TrimSpace c = ''//'' @ body"
    and "HasPrefix (TrimSpace body) ''*'' \<or> CHR ''.'' \<in> set body"
  shows "ComputeDiff \<lparr>ParsedStruct.Name = n, Fields = pre @ [f] @ post\<rparr> transformed
           = ComputeDiff \<lparr>ParsedStruct.Name = n, Fields = pre @ post\<rparr> transformed"
proof -
  let ?sfs = "TransformResult.Fields transformed"
  have commented: "isFieldCommented f"
    unfolding isFieldCommented_def by (rule commentedLoop_hit [OF assms(2,3,4)])
  then have notPending: "\<not> pendingRemoval ?sfs f" by (simp add: pendingRemoval_def)
  have look: "lastWithKey (pre @ [f] @ post) (tfieldKey sf) = lastWithKey (pre @ post) (tfieldKey sf)"
    if "sf \<in> set ?sfs" for sf
  proof -
    from that assms(1) have "fieldKey f \<noteq> tfieldKey sf" by auto
    then show ?thesis by (rule lastWithKey_skip)
  qed
  have entry: "sourceEntry (pre @ [f] @ post) sf = sourceEntry (pre @ post) sf"
    if "sf \<in> set ?sfs" for sf
    using look [OF that] by (simp add: sourceEntry_def)
  have change: "entryChanges (pre @ [f] @ post) sf = entryChanges (pre @ post) sf"
    if "sf \<in> set ?sfs" for sf
    using look [OF that] by (simp add: entryChanges_def)
  have lines: "map (sourceEntry (pre @ [f] @ post)) (filter (\<lambda>sf. \<not> ShouldExclude sf) ?sfs)
             = map (sourceEntry (pre @ post)) (filter (\<lambda>sf. \<not> ShouldExclude sf) ?sfs)"
    using entry by (intro map_cong refl) auto
  have changes: "(\<exists>sf \<in> set ?sfs. \<not> ShouldExclude sf \<and> entryChanges (pre @ [f] @ post) sf)
             = (\<exists>sf \<in> set ?sfs. \<not> ShouldExclude sf \<and> entryChanges (pre @ post) sf)"
    using change by blast
  have removed: "filter (pendingRemoval ?sfs) (pre @ [f] @ post)
             = filter (pendingRemoval ?sfs) (pre @ post)"
    using notPending by simp
  have pend: "(\<exists>tf \<in> set (pre @ [f] @ post). pendingRemoval ?sfs tf)
             = (\<exists>tf \<in> set (pre @ post). pendingRemoval ?sfs tf)"
    using notPending by auto
  show ?thesis
    unfolding ComputeDiff_closed diffLinesInOrder_def
    by (simp only: ParsedStruct.simps lines changes removed pend)
qed

theorem C10_commented_field_ignored_witness:
  "TrimSpace ''// Kept for old clients.'' = ''//'' @ '' Kept for old clients.''
   \<and> ComputeDiff
        \<lparr>ParsedStruct.Name = ''User'',
         Fields = [\<lparr>ParsedField.Name = ''Name'', Type = ''string'', TypeExpr = Ident ''string'',
                    Tags = '''', Comments = [], IsEmbedded = False\<rparr>]
                  @ [\<lparr>ParsedField.Name = ''Legacy'', Type = ''string'', TypeExpr = Ident ''string'',
                      Tags = '''', Comments = [''// Kept for old clients.''], IsEmbedded = False\<rparr>]
                  @ []\<rparr>
        (TransformStruct plainTags
           (ExtractStruct ''User'' [DstField [''Name''] (Ident ''string'') None SpaceNone []])
           \<lparr>TransformOpts.RemoveTags = [], ExcludeEmbedded = [], TypeMappings = Map.empty\<rparr>)
     = ComputeDiff
        \<lparr>ParsedStruct.Name = ''User'',
         Fields = [\<lparr>ParsedField.Name = ''Name'', Type = ''string'', TypeExpr = Ident ''string'',
                    Tags = '''', Comments = [], IsEmbedded = False\<rparr>] @ []\<rparr>
        (TransformStruct plainTags
           (ExtractStruct ''User'' [DstField [''Name''] (Ident ''string'') None SpaceNone []])
           \<lparr>TransformOpts.RemoveTags = [], ExcludeEmbedded = [], TypeMappings = Map.empty\<rparr>)
   \<and> \<not> HasChanges (ComputeDiff
        \<lparr>ParsedStruct.Name = ''User'',
         Fields = [\<lparr>ParsedField.Name = ''Name'', Type = ''string'', TypeExpr = Ident ''string'',
                    Tags = '''', Comments = [], IsEmbedded = False\<rparr>] @ []\<rparr>
        (TransformStruct plainTags
           (ExtractStruct ''User'' [DstField [''Name''] (Ident ''string'') None SpaceNone []])
           \<lparr>TransformOpts.RemoveTags = [], ExcludeEmbedded = [], TypeMappings = Map.empty\<rparr>))"
proof -
  let ?f = "\<lparr>ParsedField.Name = ''Legacy'', Type = ''string'', TypeExpr = Ident ''string'',
             Tags = '''', Comments = [''// Kept for old clients.''], IsEmbedded = False\<rparr>"
  let ?tr = "TransformStruct plainTags
           (ExtractStruct ''User'' [DstField [''Name''] (Ident ''string'') None SpaceNone []])
           \<lparr>TransformOpts.RemoveTags = [], ExcludeEmbedded = [], TypeMappings = Map.empty\<rparr>"
  have tr: "TransformResult.Fields ?tr =
      [\<lparr>ParsedField.Name = ''Name'', Type = ''string'', TypeExpr = Ident ''string'',
        Tags = '''', Comments = [], IsEmbedded = False,
        NewTags = '''', NewType = ''string'', ShouldExclude = False\<rparr>]"
    by (simp add: TransformStruct_closed ExtractStruct_def extractField_def isExcluded_def
        shouldExcludeField_def transformOne_def transformTags_def)
  have h1: "fieldKey ?f \<notin> set (map tfieldKey (TransformResult.Fields ?tr))"
    unfolding tr by (simp add: fieldKey_def tfieldKey_def)
  have h2: "''// Kept for old clients.'' \<in> set (Comments ?f)" by simp
  have h3: "TrimSpace ''// Kept for old clients.'' = ''//'' @ '' Kept for old clients.''"
    by code_simp
  have h4: "HasPrefix (TrimSpace '' Kept for old clients.'') ''*''
              \<or> CHR ''.'' \<in> set '' Kept for old clients.''"
    by simp
  have quiet: "\<not> HasChanges (ComputeDiff
        \<lparr>ParsedStruct.Name = ''User'',
         Fields = [\<lparr>ParsedField.Name = ''Name'', Type = ''string'', TypeExpr = Ident ''string'',
                    Tags = '''', Comments = [], IsEmbedded = False\<rparr>] @ []\<rparr> ?tr)"
    unfolding ComputeDiff_closed tr
    by (simp add: entryChanges_def lastWithKey_def pendingRemoval_def fieldKey_def tfieldKey_def
        formatField_def formatTransformedField_def)
  from C10_commented_field_ignored [OF h1 h2 h3 h4, of "''User''" _ "[]"] h3 quiet
  show ?thesis by blast
qed

section \<open>The builder in closed form\<close>

lemma extractField_parsedOk: "pf \<in> set (extractField node) \<Longrightarrow> parsedOk pf"
  by (auto simp: extractField_def parsedOk_def Let_def split: if_splits)

lemma ExtractStruct_parsedOk:
  "pf \<in> set (ParsedStruct.Fields (ExtractStruct n fieldList)) \<Longrightarrow> parsedOk pf"
  by (auto simp: ExtractStruct_def extractField_parsedOk)

lemma buildSourceLoop_closed:
  "buildSourceLoop tfs result
     = result @ map buildField (filter (\<lambda>tf. \<not> ShouldExclude tf) tfs)"
  by (induction tfs arbitrary: result) simp_all

lemma buildExistingLoop_closed:
  assumes "\<And>k. (m k = None) = (k \<notin> set (map buildKey tfs))"
  shows "buildExistingLoop visit m opts efs result =
     result @ (if MergeOptions.MarkDeprecated opts
               then map (\<lambda>ef. buildDeprecatedField visit ef (DeprecationMessage opts)
                                 (MergeOptions.RemoveTags opts))
                      (filter (\<lambda>ef. buildKey ef \<notin> set (map buildKey tfs)) efs)
               else [])"
proof (induction efs arbitrary: result)
  case Nil
  show ?case by simp
next
  case (Cons ef efs)
  have look: "(m (buildKey ef) = None) = (buildKey ef \<notin> set (map buildKey tfs))"
    by (rule assms)
  show ?case
  proof (cases "buildKey ef \<in> set (map buildKey tfs)")
    case True
    with look have "m (buildKey ef) \<noteq> None" by simp
    with True show ?thesis by (simp add: Cons.IH)
  next
    case False
    with look have "m (buildKey ef) = None" by simp
    with False show ?thesis by (simp add: Cons.IH)
  qed
qed

lemma BuildFieldsFromTransform_closed:
  "BuildFieldsFromTransform visit transformed existingFields opts =
     map buildField (filter (\<lambda>tf. \<not> ShouldExclude tf) (TransformResult.Fields transformed))
     @ (if MergeOptions.MarkDeprecated opts
        then map (\<lambda>ef. buildDeprecatedField visit ef (DeprecationMessage opts)
                          (MergeOptions.RemoveTags opts))
               (filter (\<lambda>ef. buildKey ef \<notin> set (map buildKey (TransformResult.Fields transformed)))
                  existingFields)
        else [])"
  by (simp add: BuildFieldsFromTransform_def Let_def buildSourceLoop_closed
      buildExistingLoop_closed [where tfs = "TransformResult.Fields transformed",
        OF sourceFields_lookup_None])

lemma transformed_not_excluded:
  "tf \<in> set (TransformResult.Fields (TransformStruct lib ps opts)) \<Longrightarrow> \<not> ShouldExclude tf"
  by (auto simp: TransformStruct_closed transformOne_def)

lemma buildKey_transformOne [simp]: "buildKey (transformOne lib opts g) = buildKey g"
  by (simp add: buildKey_def transformOne_def)

lemma outputKeys_append: "outputKeys (xs @ ys) = outputKeys xs @ outputKeys ys"
  by (simp add: outputKeys_def)

lemma outputKeys_map:
  "set (outputKeys (map h xs)) = (\<Union>x \<in> set xs. set (outputKeys [h x]))"
  by (induction xs) (auto simp: outputKeys_def)

lemma outputKeys_stub:
  "parsedOk ef \<Longrightarrow> outputKeys [buildDeprecatedField visit ef message keys] = [buildKey ef]"
  by (auto simp: outputKeys_def buildDeprecatedField_def extractField_def parsedOk_def
      buildKey_def exprToString_cloneExpr Let_def)

section \<open>Excluded fields in the build output (C2)\<close>

text \<open>
  Claim C2 as stated fails: an embedded field of an excluded type that the existing
  target also holds comes back as a deprecated stub when \<open>MarkDeprecated\<close> is set.
\<close>

theorem C2_excluded_field_becomes_stub:
  "TransformResult.ExcludedFields
      (TransformStruct plainTags
         (ExtractStruct ''Adapter''
            [DstField [] (StarExpr (SelectorExpr (Ident ''xormadapter'') ''Adapter'')) None SpaceNone [],
             DstField [''Name''] (Ident ''string'') None SpaceNone []])
         \<lparr>TransformOpts.RemoveTags = [''xorm''], ExcludeEmbedded = [''*xormadapter.Adapter''],
          TypeMappings = Map.empty\<rparr>)
     = [''*xormadapter.Adapter'']
   \<and> BuildFieldsFromTransform remdups
      (TransformStruct plainTags
         (ExtractStruct ''Adapter''
            [DstField [] (StarExpr (SelectorExpr (Ident ''xormadapter'') ''Adapter'')) None SpaceNone [],
             DstField [''Name''] (Ident ''string'') None SpaceNone []])
         \<lparr>TransformOpts.RemoveTags = [''xorm''], ExcludeEmbedded = [''*xormadapter.Adapter''],
          TypeMappings = Map.empty\<rparr>)
      (ParsedStruct.Fields (ExtractStruct ''Adapter''
            [DstField [] (StarExpr (SelectorExpr (Ident ''xormadapter'') ''Adapter'')) None SpaceNone [],
             DstField [''Name''] (Ident ''string'') None SpaceNone []]))
      \<lparr>MergeOptions.MarkDeprecated = True, DeprecationMessage = ''removed from server'',
       MergeOptions.PruneDeprecated = False, MergeOptions.RemoveTags = [''xorm'']\<rparr>
     = [DstField [''Name''] (Ident ''string'') None SpaceNone [],
        DstField [] (StarExpr (SelectorExpr (Ident ''xormadapter'') ''Adapter'')) None NewLine
          [''// Deprecated: removed from server'']]"
  by code_simp

text \<open>
  Claim C2, amended. Let \<open>f\<close> be an upstream field the transformer excludes. The retained
  part of the build output is built from the upstream fields that are not excluded, so
  never from \<open>f\<close>. A field with the identity key of \<open>f\<close> is in the output exactly when
  another upstream field, one that is kept, is built into a field of that key, or when
  \<open>MarkDeprecated\<close> is set, the existing target holds a field of that key and no kept
  upstream field has it: then the existing field returns as a deprecated stub.
\<close>

theorem C2_excluded_key_in_output:
  assumes "f \<in> set (ParsedStruct.Fields (ExtractStruct n sourceList))"
    and "isExcluded lib opts f"
  shows "(buildKey f \<in> set (outputKeys
            (BuildFieldsFromTransform visit
               (TransformStruct lib (ExtractStruct n sourceList) opts)
               (ParsedStruct.Fields (ExtractStruct n targetList)) mergeOpts)))
       = ((\<exists>g \<in> set (ParsedStruct.Fields (ExtractStruct n sourceList)).
              g \<noteq> f \<and> \<not> isExcluded lib opts g
              \<and> buildKey f \<in> set (outputKeys [buildField (transformOne lib opts g)]))
          \<or> (MergeOptions.MarkDeprecated mergeOpts
              \<and> buildKey f \<in> set (map buildKey (ParsedStruct.Fields (ExtractStruct n targetList)))
              \<and> (\<forall>g \<in> set (ParsedStruct.Fields (ExtractStruct n sourceList)).
                    \<not> isExcluded lib opts g \<longrightarrow> buildKey g \<noteq> buildKey f)))"
proof -
  let ?src = "ParsedStruct.Fields (ExtractStruct n sourceList)"
  let ?tgt = "ParsedStruct.Fields (ExtractStruct n targetList)"
  let ?tr = "TransformStruct lib (ExtractStruct n sourceList) opts"
  let ?kept = "filter (\<lambda>g. \<not> isExcluded lib opts g) ?src"
  let ?k = "buildKey f"
  have fields: "TransformResult.Fields ?tr = map (transformOne lib opts) ?kept"
    by (simp add: TransformStruct_closed)
  have live: "filter (\<lambda>tf. \<not> ShouldExclude tf) (TransformResult.Fields ?tr)
                = TransformResult.Fields ?tr"
    using transformed_not_excluded [of _ lib "ExtractStruct n sourceList" opts]
    by (simp add: filter_id_conv)
  have keys: "set (map buildKey (TransformResult.Fields ?tr)) = buildKey ` set ?kept"
    unfolding fields by (simp add: image_image)
  have retained: "(?k \<in> set (outputKeys (map buildField (TransformResult.Fields ?tr))))
      = (\<exists>g \<in> set ?src. g \<noteq> f \<and> \<not> isExcluded lib opts g
            \<and> ?k \<in> set (outputKeys [buildField (transformOne lib opts g)]))"
    unfolding fields using assms(2) by (auto simp: outputKeys_map)
  have stubKeys: "outputKeys (map (\<lambda>ef. buildDeprecatedField visit ef msg ks) efs) = map buildKey efs"
    if "\<forall>ef \<in> set efs. parsedOk ef" for efs msg ks
    using that
  proof (induction efs)
    case Nil
    show ?case by (simp add: outputKeys_def)
  next
    case (Cons ef efs)
    have "outputKeys (map (\<lambda>ef. buildDeprecatedField visit ef msg ks) (ef # efs))
            = outputKeys [buildDeprecatedField visit ef msg ks]
              @ outputKeys (map (\<lambda>ef. buildDeprecatedField visit ef msg ks) efs)"
      by (simp add: outputKeys_def)
    with Cons show ?case by (simp add: outputKeys_stub)
  qed
  have ok: "\<forall>ef \<in> set (filter P ?tgt). parsedOk ef" for P
    by (auto intro: ExtractStruct_parsedOk)
  have stubs: "(?k \<in> set (outputKeys
        (if MergeOptions.MarkDeprecated mergeOpts
         then map (\<lambda>ef. buildDeprecatedField visit ef (DeprecationMessage mergeOpts)
                           (MergeOptions.RemoveTags mergeOpts))
                (filter (\<lambda>ef. buildKey ef \<notin> set (map buildKey (TransformResult.Fields ?tr))) ?tgt)
         else [])))
      = (MergeOptions.MarkDeprecated mergeOpts \<and> ?k \<in> set (map buildKey ?tgt)
         \<and> (\<forall>g \<in> set ?src. \<not> isExcluded lib opts g \<longrightarrow> buildKey g \<noteq> ?k))"
  proof (cases "MergeOptions.MarkDeprecated mergeOpts")
    case True
    have a: "(?k \<in> set (map buildKey (filter (\<lambda>ef. buildKey ef \<notin> K) ?tgt)))
               = (?k \<in> set (map buildKey ?tgt) \<and> ?k \<notin> K)" for K
      by auto
    have b: "(?k \<notin> buildKey ` set ?kept)
               = (\<forall>g \<in> set ?src. \<not> isExcluded lib opts g \<longrightarrow> buildKey g \<noteq> ?k)"
      by (auto simp: image_iff)
    from True show ?thesis
      unfolding keys by (simp only: if_True stubKeys [OF ok] a b simp_thms)
  next
    case False
    then show ?thesis by (simp add: outputKeys_def)
  qed
  show ?thesis
    unfolding BuildFieldsFromTransform_closed live outputKeys_append set_append Un_iff
      retained stubs ..
qed

theorem C2_excluded_key_in_output_witness:
  "\<lparr>ParsedField.Name = ''*xormadapter.Adapter'', Type = ''*xormadapter.Adapter'',
     TypeExpr = StarExpr (SelectorExpr (Ident ''xormadapter'') ''Adapter''),
     Tags = '''', Comments = [], IsEmbedded = True\<rparr>
     \<in> set (ParsedStruct.Fields (ExtractStruct ''Adapter''
            [DstField [] (StarExpr (SelectorExpr (Ident ''xormadapter'') ''Adapter'')) None SpaceNone [],
             DstField [''Name''] (Ident ''string'') None SpaceNone []]))
   \<and> isExcluded plainTags
        \<lparr>TransformOpts.RemoveTags = [''xorm''], ExcludeEmbedded = [''*xormadapter.Adapter''],
         TypeMappings = Map.empty\<rparr>
        \<lparr>ParsedField.Name = ''*xormadapter.Adapter'', Type = ''*xormadapter.Adapter'',
         TypeExpr = StarExpr (SelectorExpr (Ident ''xormadapter'') ''Adapter''),
         Tags = '''', Comments = [], IsEmbedded = True\<rparr>
   \<and> ''*xormadapter.Adapter'' \<notin> set (outputKeys
        (BuildFieldsFromTransform remdups
           (TransformStruct plainTags
              (ExtractStruct ''Adapter''
                 [DstField [] (StarExpr (SelectorExpr (Ident ''xormadapter'') ''Adapter'')) None
                    SpaceNone [],
                  DstField [''Name''] (Ident ''string'') None SpaceNone []])
              \<lparr>TransformOpts.RemoveTags = [''xorm''], ExcludeEmbedded = [''*xormadapter.Adapter''],
               TypeMappings = Map.empty\<rparr>)
           (ParsedStruct.Fields (ExtractStruct ''Adapter''
              [DstField [] (StarExpr (SelectorExpr (Ident ''xormadapter'') ''Adapter'')) None
                 SpaceNone [],
               DstField [''Name''] (Ident ''string'') None SpaceNone []]))
           \<lparr>MergeOptions.MarkDeprecated = False, DeprecationMessage = ''removed from server'',
            MergeOptions.PruneDeprecated = False, MergeOptions.RemoveTags = [''xorm'']\<rparr>))"
proof -
  let ?f = "\<lparr>ParsedField.Name = ''*xormadapter.Adapter'', Type = ''*xormadapter.Adapter'',
     TypeExpr = StarExpr (SelectorExpr (Ident ''xormadapter'') ''Adapter''),
     Tags = '''', Comments = [], IsEmbedded = True\<rparr>"
  let ?nodes = "[DstField [] (StarExpr (SelectorExpr (Ident ''xormadapter'') ''Adapter'')) None
                   SpaceNone [],
                 DstField [''Name''] (Ident ''string'') None SpaceNone []]"
  let ?opts = "\<lparr>TransformOpts.RemoveTags = [''xorm''],
                ExcludeEmbedded = [''*xormadapter.Adapter''], TypeMappings = Map.empty\<rparr>"
  let ?mo = "\<lparr>MergeOptions.MarkDeprecated = False, DeprecationMessage = ''removed from server'',
            MergeOptions.PruneDeprecated = False, MergeOptions.RemoveTags = [''xorm'']\<rparr>"
  have src: "ParsedStruct.Fields (ExtractStruct ''Adapter'' ?nodes) =
     [?f, \<lparr>ParsedField.Name = ''Name'', Type = ''string'', TypeExpr = Ident ''string'',
            Tags = '''', Comments = [], IsEmbedded = False\<rparr>]"
    by (simp add: ExtractStruct_def extractField_def Let_def)
  have h1: "?f \<in> set (ParsedStruct.Fields (ExtractStruct ''Adapter'' ?nodes))"
    unfolding src by simp
  have h2: "isExcluded plainTags ?opts ?f" by (simp add: isExcluded_def)
  have key: "buildKey ?f = ''*xormadapter.Adapter''" by (simp add: buildKey_def)
  note eq = C2_excluded_key_in_output [OF h1 h2, of remdups ?nodes ?mo]
  have "\<not> ((\<exists>g \<in> set (ParsedStruct.Fields (ExtractStruct ''Adapter'' ?nodes)).
              g \<noteq> ?f \<and> \<not> isExcluded plainTags ?opts g
              \<and> buildKey ?f \<in> set (outputKeys [buildField (transformOne plainTags ?opts g)]))
          \<or> (MergeOptions.MarkDeprecated ?mo
              \<and> buildKey ?f \<in> set (map buildKey (ParsedStruct.Fields (ExtractStruct ''Adapter'' ?nodes)))
              \<and> (\<forall>g \<in> set (ParsedStruct.Fields (ExtractStruct ''Adapter'' ?nodes)).
                    \<not> isExcluded plainTags ?opts g \<longrightarrow> buildKey g \<noteq> buildKey ?f)))"
    unfolding src
    by (simp add: isExcluded_def shouldExcludeField_def outputKeys_def buildField_def
        transformOne_def transformTags_def extractField_def buildKey_def Let_def)
  with eq have "buildKey ?f \<notin> set (outputKeys
            (BuildFieldsFromTransform remdups
               (TransformStruct plainTags (ExtractStruct ''Adapter'' ?nodes) ?opts)
               (ParsedStruct.Fields (ExtractStruct ''Adapter'' ?nodes)) ?mo))"
    by blast
  with h1 h2 key show ?thesis by simp
qed

section \<open>Deprecated stubs (C3)\<close>

text \<open>
  What \<open>buildDeprecatedField\<close> always does: the stub has the name of the field unless it is
  embedded, a type that renders as the type of the field did, a line break before it,
  and the deprecation line as its only comment, with \<open>removed from server\<close> for an empty
  message.
\<close>

lemma buildDeprecatedField_shape:
  assumes "parsedOk pf"
  shows "Names (buildDeprecatedField visit pf message keys)
           = (if IsEmbedded pf then [] else [ParsedField.Name pf])"
    and "exprToString (FieldType (buildDeprecatedField visit pf message keys))
           = ParsedField.Type pf"
    and "Decs_Before (buildDeprecatedField visit pf message keys) = NewLine"
    and "Decs_Start (buildDeprecatedField visit pf message keys)
           = [''// Deprecated: '' @ (if message = '''' then ''removed from server'' else message)]"
  using assms
  by (auto simp: buildDeprecatedField_def parsedOk_def exprToString_cloneExpr)

text \<open>
  Claim C3 at a target-only field with a comment of its own: the stub keeps the name,
  the type and (stripped of \<open>xorm\<close>) the tag, and gets the default deprecation line on
  a line of its own, but the comment the field had is gone.
\<close>

theorem C3_stub_loses_prior_comments:
  "BuildFieldsFromTransform remdups
     (TransformStruct plainTags (ExtractStruct ''User'' [])
        \<lparr>TransformOpts.RemoveTags = [''xorm''], ExcludeEmbedded = [], TypeMappings = Map.empty\<rparr>)
     (ParsedStruct.Fields (ExtractStruct ''User''
        [DstField [''Foo''] (Ident ''string'')
           (Some (CHR 0x60 # ''xorm:'' @ [CHR 0x22] @ ''varchar(100)'' @ [CHR 0x22]
                  @ '' json:'' @ [CHR 0x22] @ ''foo'' @ [CHR 0x22, CHR 0x60]))
           SpaceNone [''// Foo is the display name'']]))
     \<lparr>MergeOptions.MarkDeprecated = True, DeprecationMessage = '''',
      MergeOptions.PruneDeprecated = False, MergeOptions.RemoveTags = [''xorm'']\<rparr>
   = [DstField [''Foo''] (Ident ''string'')
        (Some (CHR 0x60 # ''json:'' @ [CHR 0x22] @ ''foo'' @ [CHR 0x22, CHR 0x60]))
        NewLine [''// Deprecated: removed from server'']]"
  by code_simp

section \<open>Type rendering (C9)\<close>

subsection \<open>What a rendered text tells of its expression\<close>
















subsection \<open>What the rendering keeps and what it drops\<close>




section \<open>Running the pipeline again (C1)\<close>

subsection \<open>The diff of what the builder built\<close>

lemma extractField_buildField: "extractField (buildField tf) = [builtField tf]"
  by (simp add: extractField_def buildField_def builtField_def Let_def)

lemma extractField_stub:
  "extractField (buildDeprecatedField visit ef (DeprecationMessage opts)
                   (MergeOptions.RemoveTags opts)) = [builtStub visit opts ef]"
  by (simp add: extractField_def buildDeprecatedField_def builtStub_def Let_def)

lemma concat_map_singleton: "(\<And>x. h x = [k x]) \<Longrightarrow> concat (map h xs) = map k xs"
  by (induction xs) simp_all

lemma ExtractStruct_built:
  "ParsedStruct.Fields (ExtractStruct n
      (BuildFieldsFromTransform visit transformed existingFields opts))
   = map builtField (filter (\<lambda>tf. \<not> ShouldExclude tf) (TransformResult.Fields transformed))
     @ (if MergeOptions.MarkDeprecated opts
        then map (builtStub visit opts)
               (filter (\<lambda>ef. buildKey ef \<notin> set (map buildKey (TransformResult.Fields transformed)))
                  existingFields)
        else [])"
proof -
  have a: "concat (map (extractField \<circ> buildField) tfs) = map builtField tfs" for tfs
    by (rule concat_map_singleton) (simp add: extractField_buildField)
  have b: "concat (map (extractField \<circ>
              (\<lambda>ef. buildDeprecatedField visit ef (DeprecationMessage opts)
                             (MergeOptions.RemoveTags opts))) efs)
           = map (builtStub visit opts) efs" for efs
    by (rule concat_map_singleton) (simp add: extractField_stub)
  show ?thesis
    by (simp add: ExtractStruct_def BuildFieldsFromTransform_closed a b)
qed

lemma stable_transformOne:
  assumes "parsedOk g"
    and "IsEmbedded g \<longrightarrow> TypeMappings opts (ParsedField.Type g) = None"
  shows "stable (transformOne lib opts g)"
proof (cases "IsEmbedded g")
  case True
  with assms show ?thesis
    by (simp add: stable_def builtField_def buildField_def transformOne_def parsedOk_def
        fieldKey_def tfieldKey_def formatField_def formatTransformedField_def
        exprToString_cloneExpr Let_def)
next
  case False
  with assms(1) show ?thesis
    by (auto simp: stable_def builtField_def buildField_def transformOne_def parsedOk_def
        fieldKey_def tfieldKey_def formatField_def formatTransformedField_def
        exprToString_cloneExpr Let_def split: option.splits)
qed

lemma stubKey:
  "parsedOk ef \<Longrightarrow> fieldKey (builtStub visit opts ef) = fieldKey ef"
  by (auto simp: builtStub_def buildDeprecatedField_def parsedOk_def fieldKey_def
      exprToString_cloneExpr Let_def)

lemma stub_not_commented:
  "DeprecationMessage opts = ''removed from server'' \<Longrightarrow>
   \<not> isFieldCommented (builtStub visit opts ef)"
proof -
  have "\<not> commentedLoop [''// Deprecated: removed from server'']" by code_simp
  then show "DeprecationMessage opts = ''removed from server'' \<Longrightarrow>
     \<not> isFieldCommented (builtStub visit opts ef)"
    by (simp add: isFieldCommented_def builtStub_def buildDeprecatedField_def Let_def)
qed

lemma fieldKey_tfieldKey_buildKey:
  "fieldKey a = tfieldKey b \<Longrightarrow> buildKey a = buildKey b"
  by (auto simp: fieldKey_def tfieldKey_def buildKey_def split: if_splits)

lemma find_rev_map_distinct:
  assumes "distinct (map key xs)" and "x \<in> set xs"
    and "\<forall>y \<in> set xs. key' (h y) = key y"
  shows "find (\<lambda>z. key' z = key x) (rev (map h xs)) = Some (h x)"
  using assms
proof (induction xs rule: rev_induct)
  case Nil
  then show ?case by simp
next
  case (snoc y ys)
  show ?case
  proof (cases "x = y")
    case True
    with snoc.prems show ?thesis by simp
  next
    case False
    with snoc.prems have x: "x \<in> set ys" by simp
    with snoc.prems have "key y \<noteq> key x" by auto
    moreover from snoc.prems have "key' (h y) = key y" by simp
    moreover from snoc.prems x have "find (\<lambda>z. key' z = key x) (rev (map h ys)) = Some (h x)"
      by (intro snoc.IH) auto
    ultimately show ?thesis by simp
  qed
qed

lemma rerun_changes:
  assumes d: "distinct (map tfieldKey (TransformResult.Fields tr))"
    and st: "\<forall>tf \<in> set (TransformResult.Fields tr). stable tf \<and> \<not> ShouldExclude tf"
    and ok: "\<forall>ef \<in> set efs. parsedOk ef"
    and msg: "DeprecationMessage opts = ''removed from server''"
  shows "HasChanges (ComputeDiff
           \<lparr>ParsedStruct.Name = n,
            Fields = ParsedStruct.Fields
                       (ExtractStruct n (BuildFieldsFromTransform visit tr efs opts))\<rparr> tr)
         = (MergeOptions.MarkDeprecated opts
            \<and> (\<exists>ef \<in> set efs. buildKey ef \<notin> set (map buildKey (TransformResult.Fields tr))))"
proof -
  define tfs where "tfs = TransformResult.Fields tr"
  define P where "P = map builtField tfs"
  define gone where "gone = filter (\<lambda>ef. buildKey ef \<notin> set (map buildKey tfs)) efs"
  define Q where "Q = (if MergeOptions.MarkDeprecated opts
                       then map (builtStub visit opts) gone else [])"
  have live: "filter (\<lambda>tf. \<not> ShouldExclude tf) tfs = tfs"
    using st by (simp add: filter_id_conv tfs_def)
  have built: "ParsedStruct.Fields (ExtractStruct n (BuildFieldsFromTransform visit tr efs opts))
                 = P @ Q"
    unfolding ExtractStruct_built P_def Q_def gone_def
    using live by (simp add: tfs_def)
  have Qmem: "\<exists>ef. ef \<in> set efs \<and> buildKey ef \<notin> set (map buildKey tfs)
                \<and> q = builtStub visit opts ef" if "q \<in> set Q" for q
    using that by (auto simp: Q_def gone_def split: if_splits)
  have qkey: "fieldKey q \<notin> set (map tfieldKey tfs)" if "q \<in> set Q" for q
  proof
    assume in_keys: "fieldKey q \<in> set (map tfieldKey tfs)"
    from Qmem [OF that] obtain ef where ef: "ef \<in> set efs" "buildKey ef \<notin> set (map buildKey tfs)"
      and q: "q = builtStub visit opts ef"
      by blast
    from ef(1) ok have "parsedOk ef" by blast
    then have "fieldKey q = fieldKey ef" unfolding q by (rule stubKey)
    with in_keys obtain tf where "tf \<in> set tfs" "fieldKey ef = tfieldKey tf" by auto
    then have "buildKey ef \<in> set (map buildKey tfs)"
      using fieldKey_tfieldKey_buildKey [of ef tf] by auto
    with ef(2) show False by contradiction
  qed
  have qpending: "pendingRemoval tfs q" if "q \<in> set Q" for q
  proof -
    from Qmem [OF that] obtain ef where "q = builtStub visit opts ef" by blast
    then have "\<not> isFieldCommented q" using stub_not_commented [OF msg] by simp
    with qkey [OF that] show ?thesis by (simp add: pendingRemoval_def)
  qed
  have pkey: "fieldKey (builtField tf) = tfieldKey tf" if "tf \<in> set tfs" for tf
    using st that by (simp add: stable_def tfs_def)
  have ppending: "\<not> pendingRemoval tfs p" if "p \<in> set P" for p
  proof -
    from that obtain tf where "tf \<in> set tfs" "p = builtField tf" by (auto simp: P_def)
    with pkey have "fieldKey p \<in> set (map tfieldKey tfs)" by auto
    then show ?thesis by (simp add: pendingRemoval_def)
  qed
  have noChange: "\<not> entryChanges (P @ Q) sf" if sf: "sf \<in> set tfs" for sf
  proof -
    have "find (\<lambda>f. fieldKey f = tfieldKey sf) (rev Q) = None"
    proof (rule ccontr)
      assume "find (\<lambda>f. fieldKey f = tfieldKey sf) (rev Q) \<noteq> None"
      then obtain q where "q \<in> set (rev Q)" "fieldKey q = tfieldKey sf"
        by (auto simp: find_None_iff)
      then have "q \<in> set Q" "fieldKey q \<in> set (map tfieldKey tfs)" using sf by auto
      with qkey show False by blast
    qed
    moreover have "find (\<lambda>f. fieldKey f = tfieldKey sf) (rev P) = Some (builtField sf)"
      unfolding P_def
      by (rule find_rev_map_distinct [OF _ sf]) (use d in \<open>simp_all add: pkey tfs_def\<close>)
    ultimately have "lastWithKey (P @ Q) (tfieldKey sf) = Some (builtField sf)"
      by (simp add: lastWithKey_def find_app)
    moreover from st sf have "formatField (builtField sf) = formatTransformedField sf"
      by (simp add: stable_def tfs_def)
    ultimately show ?thesis by (simp add: entryChanges_def)
  qed
  have a: "(\<exists>sf \<in> set tfs. \<not> ShouldExclude sf \<and> entryChanges (P @ Q) sf) = False"
    using noChange by blast
  have b: "(\<exists>tf \<in> set (P @ Q). pendingRemoval tfs tf) = (Q \<noteq> [])"
  proof
    assume "\<exists>tf \<in> set (P @ Q). pendingRemoval tfs tf"
    then obtain x where x: "x \<in> set P \<or> x \<in> set Q" "pendingRemoval tfs x" by auto
    with ppending have "x \<in> set Q" by blast
    then show "Q \<noteq> []" by auto
  next
    assume "Q \<noteq> []"
    then obtain q where q: "q \<in> set Q" by (cases Q) auto
    with qpending have "pendingRemoval tfs q" by blast
    with q show "\<exists>tf \<in> set (P @ Q). pendingRemoval tfs tf" by auto
  qed
  have "HasChanges (ComputeDiff \<lparr>ParsedStruct.Name = n, Fields = P @ Q\<rparr> tr) = (Q \<noteq> [])"
    unfolding ComputeDiff_closed using a b by (auto simp: tfs_def)
  moreover have "(Q \<noteq> []) = (MergeOptions.MarkDeprecated opts
            \<and> (\<exists>ef \<in> set efs. buildKey ef \<notin> set (map buildKey tfs)))"
    by (auto simp: Q_def gone_def filter_empty_conv)
  ultimately show ?thesis unfolding built by (simp add: tfs_def)
qed

subsection \<open>What the diff sees of the target\<close>

lemma find_sameForDiff:
  "list_all2 (sameForDiff tfs) R W \<Longrightarrow>
   map_option formatField (find (\<lambda>f. fieldKey f = key) R)
     = map_option formatField (find (\<lambda>f. fieldKey f = key) W)"
  by (induction rule: list_all2_induct) (simp_all add: sameForDiff_def)

lemma lastWithKey_sameForDiff:
  "list_all2 (sameForDiff tfs) R W \<Longrightarrow>
   map_option formatField (lastWithKey R key) = map_option formatField (lastWithKey W key)"
  unfolding lastWithKey_def by (rule find_sameForDiff) simp

lemma entryChanges_sameForDiff:
  assumes "list_all2 (sameForDiff tfs) R W"
  shows "entryChanges R sf = entryChanges W sf"
proof -
  from lastWithKey_sameForDiff [OF assms, of "tfieldKey sf"]
  show ?thesis
    by (cases "lastWithKey R (tfieldKey sf)"; cases "lastWithKey W (tfieldKey sf)")
       (simp_all add: entryChanges_def)
qed

lemma pendingRemoval_sameForDiff:
  "list_all2 (sameForDiff tfs) R W \<Longrightarrow>
   (\<exists>r \<in> set R. pendingRemoval tfs r) = (\<exists>w \<in> set W. pendingRemoval tfs w)"
  by (induction rule: list_all2_induct) (auto simp: sameForDiff_def pendingRemoval_def)

lemma HasChanges_sameForDiff:
  assumes "list_all2 (sameForDiff (TransformResult.Fields tr)) R W"
  shows "HasChanges (ComputeDiff \<lparr>ParsedStruct.Name = n, Fields = R\<rparr> tr)
         = HasChanges (ComputeDiff \<lparr>ParsedStruct.Name = n, Fields = W\<rparr> tr)"
  unfolding ComputeDiff_closed
  using entryChanges_sameForDiff [OF assms] pendingRemoval_sameForDiff [OF assms]
  by simp

lemma HasChanges_readsBackAs:
  "readsBackAs tr reread written \<Longrightarrow>
   HasChanges (ComputeDiff (ExtractStruct n reread) tr)
     = HasChanges (ComputeDiff (ExtractStruct n written) tr)"
  unfolding readsBackAs_def ExtractStruct_def by (rule HasChanges_sameForDiff)

subsection \<open>The two runs\<close>

lemma syncStruct_Diff:
  "SourceFields def = Some srcList \<Longrightarrow> TargetFields def = Some tgtList \<Longrightarrow>
   Diff (syncStruct lib visit s def)
     = Some (ComputeDiff (ExtractStruct (DefName def) tgtList)
               (TransformStruct lib (ExtractStruct (DefName def) srcList) (Transform s)))"
  by (simp add: syncStruct_def Let_def)

lemma syncStruct_Written:
  "SourceFields def = Some srcList \<Longrightarrow> TargetFields def = Some tgtList \<Longrightarrow>
   Error (syncStruct lib visit s def) = None \<Longrightarrow>
   Written (syncStruct lib visit s def)
     = (if \<not> DryRun s
           \<and> HasChanges (ComputeDiff (ExtractStruct (DefName def) tgtList)
                 (TransformStruct lib (ExtractStruct (DefName def) srcList) (Transform s)))
        then Some (BuildFieldsFromTransform visit
                     (TransformStruct lib (ExtractStruct (DefName def) srcList) (Transform s))
                     (ParsedStruct.Fields (ExtractStruct (DefName def) tgtList))
                     \<lparr>MergeOptions.MarkDeprecated = Syncer.MarkDeprecated s,
                      DeprecationMessage = ''removed from server'',
                      MergeOptions.PruneDeprecated = Syncer.PruneDeprecated s,
                      MergeOptions.RemoveTags = TransformOpts.RemoveTags (Transform s)\<rparr>)
        else None)"
  by (simp add: syncStruct_def Let_def split: if_splits)

lemma syncStruct_After:
  "Transform (After (syncStruct lib visit s def)) = Transform s"
  by (simp add: syncStruct_def Let_def addModifiedTags_def split: option.splits)

text \<open>
  The write of a run whose upstream has the field \<open>A, B [16]byte\<close>: the two built fields
  hold the one length node of the array, and the run ends in the panic of the printer.
\<close>

lemma syncStruct_shared_node_panics:
  "Error (syncStruct plainTags remdups
      \<lparr>Transform = \<lparr>TransformOpts.RemoveTags = [''xorm''], ExcludeEmbedded = [],
                     TypeMappings = Map.empty\<rparr>,
       DryRun = False, ShowDiff = False, StructFilter = '''',
       MarkDeprecated = True, PruneDeprecated = False,
       stats = \<lparr>TotalStructs = 0, ChangedStructs = 0, NewFields = 0, RemovedFields = 0,
                ModifiedTags = 0, ExcludedFields = 0\<rparr>\<rparr>
      \<lparr>DefName = ''Key'',
       SourceFields = Some [DstField [''A'', ''B'']
                              (ArrayType (OtherExpr ''*dst.BasicLit'' ''16'') (Ident ''byte''))
                              None NewLine []],
       TargetFields = Some [],
       WriteOk = True\<rparr>)
   = Some Panic"
  by code_simp

text \<open>
  Why the second run is taken on the struct as it is read back. With the type mapping of
  \<open>pp.PaymentState\<close> to \<open>[16]byte\<close>, the first run writes the field \<open>State\<close> with a name node
  of the text \<open>[16]byte\<close> for its type; read from the file, that type is an array, which
  renders \<open>[...]byte\<close>, and the second run reports a change.
\<close>

lemma rerun_mapped_to_array_has_changes:
  "Written (syncStruct plainTags remdups
      \<lparr>Transform = \<lparr>TransformOpts.RemoveTags = [], ExcludeEmbedded = [],
                     TypeMappings = [''pp.PaymentState'' \<mapsto> ''[16]byte'']\<rparr>,
       DryRun = False, ShowDiff = False, StructFilter = '''',
       MarkDeprecated = False, PruneDeprecated = False,
       stats = \<lparr>TotalStructs = 0, ChangedStructs = 0, NewFields = 0, RemovedFields = 0,
                ModifiedTags = 0, ExcludedFields = 0\<rparr>\<rparr>
      \<lparr>DefName = ''Payment'',
       SourceFields = Some [DstField [''State'']
                              (SelectorExpr (Ident ''pp'') ''PaymentState'') None NewLine []],
       TargetFields = Some [],
       WriteOk = True\<rparr>)
     = Some [DstField [''State''] (Ident ''[16]byte'') None SpaceNone []]
   \<and> map_option HasChanges
     (Diff (syncStruct plainTags remdups
        \<lparr>Transform = \<lparr>TransformOpts.RemoveTags = [], ExcludeEmbedded = [],
                       TypeMappings = [''pp.PaymentState'' \<mapsto> ''[16]byte'']\<rparr>,
         DryRun = False, ShowDiff = False, StructFilter = '''',
         MarkDeprecated = False, PruneDeprecated = False,
         stats = \<lparr>TotalStructs = 0, ChangedStructs = 1, NewFields = 0, RemovedFields = 0,
                  ModifiedTags = 0, ExcludedFields = 0\<rparr>\<rparr>
        \<lparr>DefName = ''Payment'',
         SourceFields = Some [DstField [''State'']
                                (SelectorExpr (Ident ''pp'') ''PaymentState'') None NewLine []],
         TargetFields = Some [DstField [''State'']
                                (ArrayType (OtherExpr ''*dst.BasicLit'' ''16'') (Ident ''byte''))
                                None NewLine []],
         WriteOk = True\<rparr>))
     = Some True"
  by code_simp

text \<open>
  Claim C1 as stated fails. The target holds a field \<open>Foo\<close> that the upstream lacks; the
  first run writes it as a deprecated stub, on a line of its own under the comment
  \<open>// Deprecated: removed from server\<close>; the second run, on the struct as it is read from
  that file and on the same upstream, reports changes again.
\<close>

theorem C1_second_run_has_changes:
  "Written (syncStruct plainTags remdups
      \<lparr>Transform = \<lparr>TransformOpts.RemoveTags = [''xorm''], ExcludeEmbedded = [],
                     TypeMappings = Map.empty\<rparr>,
       DryRun = False, ShowDiff = False, StructFilter = '''',
       MarkDeprecated = True, PruneDeprecated = False,
       stats = \<lparr>TotalStructs = 0, ChangedStructs = 0, NewFields = 0, RemovedFields = 0,
                ModifiedTags = 0, ExcludedFields = 0\<rparr>\<rparr>
      \<lparr>DefName = ''User'',
       SourceFields = Some [DstField [''Name''] (Ident ''string'') None NewLine []],
       TargetFields = Some [DstField [''Name''] (Ident ''string'') None NewLine [],
                            DstField [''Foo''] (Ident ''string'') None NewLine []],
       WriteOk = True\<rparr>)
     = Some [DstField [''Name''] (Ident ''string'') None SpaceNone [],
             DstField [''Foo''] (Ident ''string'') None NewLine
               [''// Deprecated: removed from server'']]
   \<and> map_option HasChanges
     (Diff (syncStruct plainTags remdups
        (After (syncStruct plainTags remdups
           \<lparr>Transform = \<lparr>TransformOpts.RemoveTags = [''xorm''], ExcludeEmbedded = [],
                          TypeMappings = Map.empty\<rparr>,
            DryRun = False, ShowDiff = False, StructFilter = '''',
            MarkDeprecated = True, PruneDeprecated = False,
            stats = \<lparr>TotalStructs = 0, ChangedStructs = 0, NewFields = 0, RemovedFields = 0,
                     ModifiedTags = 0, ExcludedFields = 0\<rparr>\<rparr>
           \<lparr>DefName = ''User'',
            SourceFields = Some [DstField [''Name''] (Ident ''string'') None NewLine []],
            TargetFields = Some [DstField [''Name''] (Ident ''string'') None NewLine [],
                                 DstField [''Foo''] (Ident ''string'') None NewLine []],
            WriteOk = True\<rparr>))
        \<lparr>DefName = ''User'',
         SourceFields = Some [DstField [''Name''] (Ident ''string'') None NewLine []],
         TargetFields = Some [DstField [''Name''] (Ident ''string'') None NewLine [],
                              DstField [''Foo''] (Ident ''string'') None NewLine
                                [''// Deprecated: removed from server'']],
         WriteOk = True\<rparr>))
   = Some True"
  by code_simp

text \<open>
  Claim C1, amended. Take a run that is not a dry run and ends without error, on upstream
  fields with distinct identity keys and no type mapping for an embedded field. Let the
  struct then read from the target file show the diff what the run wrote (or, if it
  wrote nothing, what the target held): field by field the same identity key and
  rendered line, and the same comment status where no upstream field has the key. Then
  the diff of a second run on that file and the same upstream has changes exactly when
  the first had changes, \<open>MarkDeprecated\<close> is set and the target held a field whose key no
  kept upstream field has. Such a field was written as a deprecated stub, and the
  comment \<open>// Deprecated: removed from server\<close> does not count as commenting it out, so the
  second run reports it as removed again. Otherwise the second run is quiet.
\<close>

theorem C1_second_run:
  assumes "\<not> DryRun s"
    and "distinct (map fieldKey (ParsedStruct.Fields (ExtractStruct n sourceList)))"
    and "\<forall>g \<in> set (ParsedStruct.Fields (ExtractStruct n sourceList)).
           IsEmbedded g \<longrightarrow> TypeMappings (Transform s) (ParsedField.Type g) = None"
    and def_def: "def = \<lparr>DefName = n, SourceFields = Some sourceList,
                          TargetFields = Some targetList, WriteOk = w\<rparr>"
    and first_def: "first = syncStruct lib visit s def"
    and no_error: "Error first = None"
    and reads: "readsBackAs (TransformStruct lib (ExtractStruct n sourceList) (Transform s))
                  reread
                  (case Written first of None \<Rightarrow> targetList | Some newFields \<Rightarrow> newFields)"
    and second_def: "second = syncStruct lib visit (After first)
                                (def\<lparr>TargetFields := Some reread\<rparr>)"
  shows "\<exists>d1 d2. Diff first = Some d1 \<and> Diff second = Some d2
              \<and> HasChanges d2 =
                  (HasChanges d1 \<and> Syncer.MarkDeprecated s
                   \<and> (\<exists>ef \<in> set (ParsedStruct.Fields (ExtractStruct n targetList)).
                        \<forall>g \<in> set (ParsedStruct.Fields (ExtractStruct n sourceList)).
                          \<not> isExcluded lib (Transform s) g \<longrightarrow> buildKey g \<noteq> buildKey ef))"
proof -
  define src where "src = ParsedStruct.Fields (ExtractStruct n sourceList)"
  define tgt where "tgt = ParsedStruct.Fields (ExtractStruct n targetList)"
  define tr where "tr = TransformStruct lib (ExtractStruct n sourceList) (Transform s)"
  define d1 where "d1 = ComputeDiff (ExtractStruct n targetList) tr"
  define mo where "mo = \<lparr>MergeOptions.MarkDeprecated = Syncer.MarkDeprecated s,
                      DeprecationMessage = ''removed from server'',
                      MergeOptions.PruneDeprecated = Syncer.PruneDeprecated s,
                      MergeOptions.RemoveTags = TransformOpts.RemoveTags (Transform s)\<rparr>"
  define kept where "kept = filter (\<lambda>g. \<not> isExcluded lib (Transform s) g) src"
  define def2 where "def2 = def\<lparr>TargetFields := Some reread\<rparr>"
  have defs: "DefName def = n" "SourceFields def = Some sourceList"
    "TargetFields def = Some targetList"
    by (simp_all add: def_def)
  have defs2: "DefName def2 = n" "SourceFields def2 = Some sourceList"
    "TargetFields def2 = Some reread"
    by (simp_all add: def2_def def_def)
  have diff1: "Diff first = Some d1"
    unfolding first_def d1_def tr_def using syncStruct_Diff [OF defs(2,3)] defs(1) by simp
  have written: "Written first
      = (if HasChanges d1 then Some (BuildFieldsFromTransform visit tr tgt mo) else None)"
    unfolding d1_def tr_def tgt_def mo_def
    using syncStruct_Written [OF defs(2,3), of lib visit s] no_error defs(1) assms(1)
    by (simp add: first_def)
  have same: "Transform (After first) = Transform s"
    unfolding first_def by (rule syncStruct_After)
  have diff2: "Diff second = Some (ComputeDiff (ExtractStruct n reread) tr)"
    unfolding second_def tr_def
    using syncStruct_Diff [OF defs2(2,3), of lib visit "After first"] defs2(1) same
    by (simp add: def2_def)
  have fields: "TransformResult.Fields tr = map (transformOne lib (Transform s)) kept"
    by (simp add: tr_def kept_def src_def TransformStruct_closed)
  have keys: "map tfieldKey (TransformResult.Fields tr) = map fieldKey kept"
    unfolding fields by (simp add: tfieldKey_def fieldKey_def transformOne_def)
  have dist: "distinct (map tfieldKey (TransformResult.Fields tr))"
    unfolding keys kept_def using assms(2) by (simp add: src_def distinct_map_filter)
  have st: "\<forall>tf \<in> set (TransformResult.Fields tr). stable tf \<and> \<not> ShouldExclude tf"
  proof
    fix tf assume "tf \<in> set (TransformResult.Fields tr)"
    then obtain g where g: "g \<in> set src" "tf = transformOne lib (Transform s) g"
      unfolding fields kept_def by auto
    from g(1) have "parsedOk g" unfolding src_def by (rule ExtractStruct_parsedOk)
    moreover from g(1) assms(3)
    have "IsEmbedded g \<longrightarrow> TypeMappings (Transform s) (ParsedField.Type g) = None"
      by (simp add: src_def)
    ultimately have "stable tf" unfolding g(2) by (rule stable_transformOne)
    moreover have "\<not> ShouldExclude tf" unfolding g(2) by (simp add: transformOne_def)
    ultimately show "stable tf \<and> \<not> ShouldExclude tf" ..
  qed
  have ok: "\<forall>ef \<in> set tgt. parsedOk ef"
    unfolding tgt_def by (auto intro: ExtractStruct_parsedOk)
  have gone: "(\<exists>ef \<in> set tgt. buildKey ef \<notin> set (map buildKey (TransformResult.Fields tr)))
            = (\<exists>ef \<in> set tgt. \<forall>g \<in> set src.
                  \<not> isExcluded lib (Transform s) g \<longrightarrow> buildKey g \<noteq> buildKey ef)"
  proof -
    have "set (map buildKey (TransformResult.Fields tr))
            = buildKey ` {g \<in> set src. \<not> isExcluded lib (Transform s) g}"
      unfolding fields kept_def by (simp add: image_image)
    moreover have "(buildKey ef \<notin> buildKey ` {g \<in> set src. \<not> isExcluded lib (Transform s) g})
            = (\<forall>g \<in> set src. \<not> isExcluded lib (Transform s) g \<longrightarrow> buildKey g \<noteq> buildKey ef)"
      for ef :: ParsedField
      by (auto simp: image_iff)
    ultimately show ?thesis by simp
  qed
  have "HasChanges (ComputeDiff (ExtractStruct n reread) tr)
          = (HasChanges d1 \<and> Syncer.MarkDeprecated s
                \<and> (\<exists>ef \<in> set tgt. \<forall>g \<in> set src.
                      \<not> isExcluded lib (Transform s) g \<longrightarrow> buildKey g \<noteq> buildKey ef))"
  proof (cases "HasChanges d1")
    case True
    let ?built = "BuildFieldsFromTransform visit tr tgt mo"
    from True written reads have "readsBackAs tr reread ?built" by (simp add: tr_def)
    then have "HasChanges (ComputeDiff (ExtractStruct n reread) tr)
        = HasChanges (ComputeDiff (ExtractStruct n ?built) tr)"
      by (rule HasChanges_readsBackAs)
    moreover have "HasChanges (ComputeDiff (ExtractStruct n ?built) tr)
        = (MergeOptions.MarkDeprecated mo
           \<and> (\<exists>ef \<in> set tgt. buildKey ef \<notin> set (map buildKey (TransformResult.Fields tr))))"
      using rerun_changes [OF dist st ok, of mo n visit]
      by (simp add: mo_def ExtractStruct_def)
    ultimately show ?thesis using True gone by (simp add: mo_def)
  next
    case False
    with written reads have "readsBackAs tr reread targetList" by (simp add: tr_def)
    then have "HasChanges (ComputeDiff (ExtractStruct n reread) tr) = HasChanges d1"
      unfolding d1_def by (rule HasChanges_readsBackAs)
    with False show ?thesis by simp
  qed
  with diff1 diff2 show ?thesis
    unfolding src_def tgt_def by blast
qed

theorem C1_second_run_witness:
  "Written (syncStruct plainTags remdups
      \<lparr>Transform = \<lparr>TransformOpts.RemoveTags = [''xorm''], ExcludeEmbedded = [],
                     TypeMappings = Map.empty\<rparr>,
       DryRun = False, ShowDiff = False, StructFilter = '''',
       MarkDeprecated = False, PruneDeprecated = False,
       stats = \<lparr>TotalStructs = 0, ChangedStructs = 0, NewFields = 0, RemovedFields = 0,
                ModifiedTags = 0, ExcludedFields = 0\<rparr>\<rparr>
      \<lparr>DefName = ''User'',
       SourceFields = Some [DstField [''Name''] (Ident ''string'') None NewLine []],
       TargetFields = Some [DstField [''Name''] (Ident ''string'') None NewLine [],
                            DstField [''Foo''] (Ident ''string'') None NewLine []],
       WriteOk = True\<rparr>)
     = Some [DstField [''Name''] (Ident ''string'') None SpaceNone []]
   \<and> map_option HasChanges
     (Diff (syncStruct plainTags remdups
        (After (syncStruct plainTags remdups
           \<lparr>Transform = \<lparr>TransformOpts.RemoveTags = [''xorm''], ExcludeEmbedded = [],
                          TypeMappings = Map.empty\<rparr>,
            DryRun = False, ShowDiff = False, StructFilter = '''',
            MarkDeprecated = False, PruneDeprecated = False,
            stats = \<lparr>TotalStructs = 0, ChangedStructs = 0, NewFields = 0, RemovedFields = 0,
                     ModifiedTags = 0, ExcludedFields = 0\<rparr>\<rparr>
           \<lparr>DefName = ''User'',
            SourceFields = Some [DstField [''Name''] (Ident ''string'') None NewLine []],
            TargetFields = Some [DstField [''Name''] (Ident ''string'') None NewLine [],
                                 DstField [''Foo''] (Ident ''string'') None NewLine []],
            WriteOk = True\<rparr>))
        \<lparr>DefName = ''User'',
         SourceFields = Some [DstField [''Name''] (Ident ''string'') None NewLine []],
         TargetFields = Some [DstField [''Name''] (Ident ''string'') None NewLine []],
         WriteOk = True\<rparr>))
   = Some False"
proof -
  let ?s = "\<lparr>Transform = \<lparr>TransformOpts.RemoveTags = [''xorm''], ExcludeEmbedded = [],
                          TypeMappings = Map.empty\<rparr>,
            DryRun = False, ShowDiff = False, StructFilter = '''',
            MarkDeprecated = False, PruneDeprecated = False,
            stats = \<lparr>TotalStructs = 0, ChangedStructs = 0, NewFields = 0, RemovedFields = 0,
                     ModifiedTags = 0, ExcludedFields = 0\<rparr>\<rparr>"
  let ?src = "[DstField [''Name''] (Ident ''string'') None NewLine []]"
  let ?tgt = "[DstField [''Name''] (Ident ''string'') None NewLine [],
               DstField [''Foo''] (Ident ''string'') None NewLine []]"
  let ?reread = "[DstField [''Name''] (Ident ''string'') None NewLine []]"
  let ?def = "\<lparr>DefName = ''User'', SourceFields = Some ?src, TargetFields = Some ?tgt,
               WriteOk = True\<rparr>"
  have h1: "\<not> DryRun ?s" by simp
  have h2: "distinct (map fieldKey (ParsedStruct.Fields (ExtractStruct ''User'' ?src)))"
    by (simp add: ExtractStruct_def extractField_def)
  have h3: "\<forall>g \<in> set (ParsedStruct.Fields (ExtractStruct ''User'' ?src)).
           IsEmbedded g \<longrightarrow> TypeMappings (Transform ?s) (ParsedField.Type g) = None"
    by simp
  have w: "Written (syncStruct plainTags remdups ?s ?def)
             = Some [DstField [''Name''] (Ident ''string'') None SpaceNone []]"
    by code_simp
  have h6: "Error (syncStruct plainTags remdups ?s ?def) = None"
    by code_simp
  have h7: "readsBackAs (TransformStruct plainTags (ExtractStruct ''User'' ?src) (Transform ?s))
              ?reread
              (case Written (syncStruct plainTags remdups ?s ?def) of
                 None \<Rightarrow> ?tgt | Some newFields \<Rightarrow> newFields)"
    unfolding w by code_simp
  from C1_second_run [where lib = plainTags and visit = remdups and targetList = ?tgt
      and reread = ?reread, OF h1 h2 h3 refl refl h6 h7 refl]
  have "map_option HasChanges (Diff (syncStruct plainTags remdups
          (After (syncStruct plainTags remdups ?s ?def))
          (?def\<lparr>TargetFields := Some ?reread\<rparr>))) = Some False"
    by (elim exE conjE) simp
  with w show ?thesis by simp
qed

section \<open>The summary statistics (C8)\<close>

text \<open>
  No step of \<open>syncStruct\<close> or \<open>Run\<close> writes the counters \<open>NewFields\<close>, \<open>RemovedFields\<close> and
  \<open>ExcludedFields\<close>: a run that comes to its end ends with them as it began.
\<close>

lemma syncStruct_untouched: "untouched (After (syncStruct lib visit s def)) = untouched s"
  by (simp add: syncStruct_def untouched_def addModifiedTags_def Let_def split: option.splits)

lemma Run_untouched: "Run lib visit s defs = Some s' \<Longrightarrow> untouched s' = untouched s"
proof (induction defs arbitrary: s)
  case Nil
  then show ?case by simp
next
  case (Cons structDef rest)
  have "untouched ((After (syncStruct lib visit s structDef))
           \<lparr>stats := (stats (After (syncStruct lib visit s structDef)))
              \<lparr>TotalStructs := TotalStructs (stats (After (syncStruct lib visit s structDef))) + 1\<rparr>\<rparr>)
          = untouched s"
    using syncStruct_untouched [of lib visit s structDef] by (simp add: untouched_def)
  with Cons.prems show ?case
    by (auto simp: Let_def syncStruct_untouched dest!: Cons.IH split: if_splits)
qed

text \<open>
  Claim C8 at a run over one struct whose upstream has an excluded embedded field, a
  field with an \<open>xorm\<close> tag and a new field, and whose target has a field the upstream
  lacks: the run counts one struct, one changed struct and one modified tag, and leaves
  the counts of new, removed and excluded fields at zero, although the transformer
  excluded one field and the diff added one line and removed one.
\<close>

theorem C8_counters_never_updated:
  "map_option stats (Run plainTags remdups
      \<lparr>Transform = \<lparr>TransformOpts.RemoveTags = [''xorm''],
                     ExcludeEmbedded = [''*xormadapter.Adapter''], TypeMappings = Map.empty\<rparr>,
       DryRun = True, ShowDiff = True, StructFilter = '''',
       MarkDeprecated = True, PruneDeprecated = False,
       stats = \<lparr>TotalStructs = 0, ChangedStructs = 0, NewFields = 0, RemovedFields = 0,
                ModifiedTags = 0, ExcludedFields = 0\<rparr>\<rparr>
      [\<lparr>DefName = ''Adapter'',
        SourceFields = Some
          [DstField [] (StarExpr (SelectorExpr (Ident ''xormadapter'') ''Adapter'')) None SpaceNone [],
           DstField [''Name''] (Ident ''string'')
             (Some (CHR 0x60 # ''xorm:'' @ [CHR 0x22] @ ''pk'' @ [CHR 0x22]
                    @ '' json:'' @ [CHR 0x22] @ ''name'' @ [CHR 0x22, CHR 0x60]))
             SpaceNone [],
           DstField [''Host''] (Ident ''string'') None SpaceNone []],
        TargetFields = Some
          [DstField [''Name''] (Ident ''string'')
             (Some (CHR 0x60 # ''json:'' @ [CHR 0x22] @ ''name'' @ [CHR 0x22, CHR 0x60]))
             SpaceNone [],
           DstField [''Old''] (Ident ''int'') None SpaceNone []],
        WriteOk = True\<rparr>])
   = Some \<lparr>TotalStructs = 1, ChangedStructs = 1, NewFields = 0, RemovedFields = 0,
      ModifiedTags = 1, ExcludedFields = 0\<rparr>
   \<and> TransformResult.ExcludedFields (TransformStruct plainTags
        (ExtractStruct ''Adapter''
          [DstField [] (StarExpr (SelectorExpr (Ident ''xormadapter'') ''Adapter'')) None SpaceNone [],
           DstField [''Name''] (Ident ''string'')
             (Some (CHR 0x60 # ''xorm:'' @ [CHR 0x22] @ ''pk'' @ [CHR 0x22]
                    @ '' json:'' @ [CHR 0x22] @ ''name'' @ [CHR 0x22, CHR 0x60]))
             SpaceNone [],
           DstField [''Host''] (Ident ''string'') None SpaceNone []])
        \<lparr>TransformOpts.RemoveTags = [''xorm''],
         ExcludeEmbedded = [''*xormadapter.Adapter''], TypeMappings = Map.empty\<rparr>)
     = [''*xormadapter.Adapter'']
   \<and> map DiffLine.Type (Lines (ComputeDiff
        (ExtractStruct ''Adapter''
          [DstField [''Name''] (Ident ''string'')
             (Some (CHR 0x60 # ''json:'' @ [CHR 0x22] @ ''name'' @ [CHR 0x22, CHR 0x60]))
             SpaceNone [],
           DstField [''Old''] (Ident ''int'') None SpaceNone []])
        (TransformStruct plainTags
          (ExtractStruct ''Adapter''
            [DstField [] (StarExpr (SelectorExpr (Ident ''xormadapter'') ''Adapter'')) None SpaceNone [],
             DstField [''Name''] (Ident ''string'')
               (Some (CHR 0x60 # ''xorm:'' @ [CHR 0x22] @ ''pk'' @ [CHR 0x22]
                      @ '' json:'' @ [CHR 0x22] @ ''name'' @ [CHR 0x22, CHR 0x60]))
               SpaceNone [],
             DstField [''Host''] (Ident ''string'') None SpaceNone []])
          \<lparr>TransformOpts.RemoveTags = [''xorm''],
           ExcludeEmbedded = [''*xormadapter.Adapter''], TypeMappings = Map.empty\<rparr>)))
     = [DiffUnchanged, DiffUnchanged, DiffAdded, DiffRemoved, DiffUnchanged]"
  by code_simp

end
